theory Spec2Isabelle
  imports Complex_Main "HOL-Library.Sublist"
begin

section \<open>JavaScript strings and the string built-ins the log view uses\<close>

text \<open>
  A JavaScript string is a sequence of UTF-16 code units; a code unit is modelled as a
  natural number and a string as the list of its code units. \<open>js\<close> turns an ASCII
  literal into such a string.
\<close>

type_synonym jsstr = "nat list"

definition js :: "string \<Rightarrow> jsstr" where
  "js s = map of_char s"

text \<open>\<open>\d\<close>, \<open>\w\<close>, \<open>\s\<close> and \<open>.\<close> of a regular expression without the \<open>u\<close> flag.\<close>

definition isDigit :: "nat \<Rightarrow> bool" where
  "isDigit c = (48 \<le> c \<and> c \<le> 57)"

definition isWordChar :: "nat \<Rightarrow> bool" where
  "isWordChar c = (isDigit c \<or> (65 \<le> c \<and> c \<le> 90) \<or> c = 95 \<or> (97 \<le> c \<and> c \<le> 122))"

definition isLineTerminator :: "nat \<Rightarrow> bool" where
  "isLineTerminator c = (c = 10 \<or> c = 13 \<or> c = 8232 \<or> c = 8233)"

definition isSpace :: "nat \<Rightarrow> bool" where
  "isSpace c = (isLineTerminator c \<or> c = 9 \<or> c = 11 \<or> c = 12 \<or> c = 32 \<or> c = 160 \<or> c = 5760
     \<or> (8192 \<le> c \<and> c \<le> 8202) \<or> c = 8239 \<or> c = 8287 \<or> c = 12288 \<or> c = 65279)"

definition notLineTerminator :: "nat \<Rightarrow> bool" where
  "notLineTerminator c = (\<not> isLineTerminator c)"

text \<open>\<open>String.prototype.trim\<close> removes white space and line terminators at both ends.\<close>

definition trim :: "jsstr \<Rightarrow> jsstr" where
  "trim s = rev (dropWhile isSpace (rev (dropWhile isSpace s)))"

text \<open>
  \<open>s.split(d)\<close> for a separator of one code unit: the pieces between the separators, so
  that a string with \<open>n\<close> separators has \<open>n + 1\<close> pieces and the empty string has one.
\<close>

fun split :: "nat \<Rightarrow> jsstr \<Rightarrow> jsstr list" where
  "split d [] = [[]]"
| "split d (c # cs) =
     (if c = d then [] # split d cs
      else (case split d cs of [] \<Rightarrow> [[c]] | l # ls \<Rightarrow> (c # l) # ls))"

text \<open>\<open>xs.join(sep)\<close>.\<close>

fun join :: "jsstr \<Rightarrow> jsstr list \<Rightarrow> jsstr" where
  "join sep [] = []"
| "join sep [x] = x"
| "join sep (x # y # ys) = x @ sep @ join sep (y # ys)"

text \<open>
  \<open>s.replace(pat, rep)\<close> with a string pattern replaces the first occurrence only; the
  replacements used here contain no \<open>$\<close>, so they are inserted literally.
\<close>

fun replace :: "jsstr \<Rightarrow> jsstr \<Rightarrow> jsstr \<Rightarrow> jsstr" where
  "replace pat rep [] = (if pat = [] then rep else [])"
| "replace pat rep (c # cs) =
     (if prefix pat (c # cs) then rep @ drop (length pat) (c # cs)
      else c # replace pat rep cs)"

text \<open>\<open>s.replace(/c/g, rep)\<close> for a pattern of one literal code unit: every occurrence.\<close>

definition replaceAll :: "nat \<Rightarrow> jsstr \<Rightarrow> jsstr \<Rightarrow> jsstr" where
  "replaceAll c rep s = concat (map (\<lambda>x. if x = c then rep else [x]) s)"

text \<open>\<open>n.toString()\<close> for an integral number and \<open>s.padStart(2, '0')\<close>.\<close>

fun digitsOf :: "nat \<Rightarrow> jsstr" where
  "digitsOf n = (if n < 10 then [48 + n] else digitsOf (n div 10) @ [48 + n mod 10])"

declare digitsOf.simps [simp del]

definition toString :: "int \<Rightarrow> jsstr" where
  "toString n = (if n < 0 then 45 # digitsOf (nat (- n)) else digitsOf (nat n))"

definition padStart2 :: "jsstr \<Rightarrow> jsstr" where
  "padStart2 s = replicate (2 - length s) 48 @ s"


section \<open>Regular expressions\<close>

text \<open>
  The regular expressions of the source, as syntax trees, and a backtracking matcher in the
  order of the ECMAScript semantics: alternatives left to right, quantifiers greedy.
  A matcher state is the code unit before the current position (none at the start of the
  input) and the rest of the input; \<open>ends r st\<close> lists the states in which a match of
  \<open>r\<close> begun at \<open>st\<close> can end, the preferred one first. An iteration of \<open>*\<close> that
  consumes nothing is rejected, as in the ECMAScript RepeatMatcher.
\<close>

datatype re =
    Cls "nat \<Rightarrow> bool"
  | Eps
  | Seq re re
  | Alt re re
  | Opt re
  | Star re
  | Bol
  | Eol
  | WordB

type_synonym mstate = "nat option \<times> jsstr"

definition wordBefore :: "nat option \<Rightarrow> bool" where
  "wordBefore p = (case p of None \<Rightarrow> False | Some c \<Rightarrow> isWordChar c)"

definition wordAfter :: "jsstr \<Rightarrow> bool" where
  "wordAfter s = (case s of [] \<Rightarrow> False | c # _ \<Rightarrow> isWordChar c)"

function ends :: "re \<Rightarrow> mstate \<Rightarrow> mstate list" where
  "ends (Cls P) (p, s) = (case s of [] \<Rightarrow> [] | c # cs \<Rightarrow> if P c then [(Some c, cs)] else [])"
| "ends Eps st = [st]"
| "ends (Seq a b) st = concat (map (ends b) (ends a st))"
| "ends (Alt a b) st = ends a st @ ends b st"
| "ends (Opt a) st = ends a st @ [st]"
| "ends (Star a) (p, s) =
     concat (map (ends (Star a)) (filter (\<lambda>st'. length (snd st') < length s) (ends a (p, s))))
     @ [(p, s)]"
| "ends Bol (p, s) = (if p = None then [(p, s)] else [])"
| "ends Eol (p, s) = (if s = [] then [(p, s)] else [])"
| "ends WordB (p, s) = (if wordBefore p \<noteq> wordAfter s then [(p, s)] else [])"
  by pat_completeness auto
termination
  by (relation "measure size <*lex*> measure (\<lambda>st. length (snd st))") auto

text \<open>The equation of \<open>*\<close> unfolds without end on an input that is not concrete.\<close>

declare ends.simps(6) [simp del]

text \<open>
  \<open>RegExp.prototype.test\<close> of a regular expression without the \<open>g\<close> flag: a match may
  begin at any position of the input, the leftmost being tried first.
\<close>

fun search :: "re \<Rightarrow> nat option \<Rightarrow> jsstr \<Rightarrow> bool" where
  "search r p [] = (ends r (p, []) \<noteq> [])"
| "search r p (c # cs) = (if ends r (p, c # cs) \<noteq> [] then True else search r (Some c) cs)"

definition test :: "re \<Rightarrow> jsstr \<Rightarrow> bool" where
  "test r s = search r None s"

text \<open>
  A regular expression that is a sequence of parts, some of them capture groups:
  \<open>firstPath rs st\<close> is the first way, in backtracking order, to match the parts one
  after the other from \<open>st\<close>, given as the states reached after each part.
\<close>

fun firstPath :: "re list \<Rightarrow> mstate \<Rightarrow> mstate list option"
  and firstOf :: "re list \<Rightarrow> mstate list \<Rightarrow> mstate list option" where
  "firstPath [] st = Some []"
| "firstPath (r # rs) st = firstOf rs (ends r st)"
| "firstOf rs [] = None"
| "firstOf rs (st # sts) =
     (case firstPath rs st of Some path \<Rightarrow> Some (st # path) | None \<Rightarrow> firstOf rs sts)"

text \<open>Notation of the source's patterns.\<close>

definition chr :: "nat \<Rightarrow> re" where
  "chr c = Cls (\<lambda>x. x = c)"

text \<open>
  A pattern character under the \<open>i\<close> flag. Every pattern character of the source is an
  ASCII character or a symbol without case, for which the canonicalisation of ECMAScript
  (without the \<open>u\<close> flag) relates exactly the two ASCII cases of a letter.
\<close>

definition canonicalize :: "nat \<Rightarrow> nat" where
  "canonicalize c = (if 97 \<le> c \<and> c \<le> 122 then c - 32 else c)"

definition chrI :: "nat \<Rightarrow> re" where
  "chrI c = Cls (\<lambda>x. canonicalize x = canonicalize c)"

fun lit :: "jsstr \<Rightarrow> re" where
  "lit [] = Eps"
| "lit (c # cs) = Seq (chr c) (lit cs)"

fun litI :: "jsstr \<Rightarrow> re" where
  "litI [] = Eps"
| "litI (c # cs) = Seq (chrI c) (litI cs)"

fun alts :: "re list \<Rightarrow> re" where
  "alts [] = Eps"
| "alts [r] = r"
| "alts (r # rs) = Alt r (alts rs)"

fun seqs :: "re list \<Rightarrow> re" where
  "seqs [] = Eps"
| "seqs [r] = r"
| "seqs (r # rs) = Seq r (seqs rs)"

definition Rep1 :: "re \<Rightarrow> re" where
  "Rep1 r = Seq r (Star r)"

definition words :: "string list \<Rightarrow> re" where
  "words ws = alts (map (\<lambda>w. lit (js w)) ws)"

definition wordsI :: "string list \<Rightarrow> re" where
  "wordsI ws = alts (map (\<lambda>w. litI (js w)) ws)"

definition digit :: re where "digit = Cls isDigit"
definition space :: re where "space = Cls isSpace"
definition dot :: re where "dot = Cls notLineTerminator"



section \<open>The host: what the program takes from its platform\<close>

text \<open>
  \<open>ansiToHtml\<close> is \<open>toHtml\<close> of the converter of the package ansi-to-html, as the
  module configures it; \<open>localTZA t isUTC\<close> is the offset of the local time zone in
  milliseconds (LocalTZA of ECMAScript); \<open>toLowerCase\<close> is
  \<open>String.prototype.toLowerCase\<close>, the lower-case mapping of Unicode, which may change
  the length of a string (U+0130 becomes two code units) and maps letters outside
  Basic Latin to Basic Latin (U+212A becomes \<open>k\<close>). Nothing is assumed about the three.
\<close>

record host =
  ansiToHtml :: "jsstr \<Rightarrow> jsstr"
  localTZA :: "int \<Rightarrow> bool \<Rightarrow> int"
  toLowerCase :: "jsstr \<Rightarrow> jsstr"


section \<open>Date\<close>

text \<open>
  A \<open>Date\<close> is its time value: milliseconds since the epoch, or none for NaN (an
  invalid date). \<open>newDate\<close> is \<open>new Date(s)\<close> for the strings \<open>parseLogLine\<close> builds,
  which have the form \<open>YYYY-MM-DDTHH:mm:ss\<close>, an optional fraction and an optional
  \<open>Z\<close>; it follows the date parser of V8, the engine that runs the extension. A
  string of another form is not modelled and yields none.

  The parser reads the string as tokens. A token of digits carries its length and its
  number: \<open>readUnsignedNumeral\<close> skips the leading zeros and then takes at most nine
  digits into the number, reading past the others. \<open>readMilliseconds\<close> turns the token
  of the fraction into milliseconds: a fraction of one or two digits is scaled up, one
  of more than three digits is divided by the power of ten of its length (at most
  nine) less three.
\<close>

record dateTime =
  year :: nat
  month :: nat
  day :: nat
  hours :: nat
  minutes :: nat
  seconds :: nat
  fractionNumber :: nat
  fractionLength :: nat
  utc :: bool

definition digitValue :: "nat \<Rightarrow> nat" where
  "digitValue c = c - 48"

definition readDigits2 :: "jsstr \<Rightarrow> (nat \<times> jsstr) option" where
  "readDigits2 s =
     (case s of
        a # b # r \<Rightarrow>
          if isDigit a \<and> isDigit b then Some (10 * digitValue a + digitValue b, r) else None
      | _ \<Rightarrow> None)"

definition readDigits4 :: "jsstr \<Rightarrow> (nat \<times> jsstr) option" where
  "readDigits4 s =
     (case readDigits2 s of
        None \<Rightarrow> None
      | Some (hi, r) \<Rightarrow>
          (case readDigits2 r of None \<Rightarrow> None | Some (lo, r') \<Rightarrow> Some (100 * hi + lo, r')))"

definition skipSymbol :: "nat \<Rightarrow> jsstr \<Rightarrow> jsstr option" where
  "skipSymbol c s = (case s of [] \<Rightarrow> None | x # xs \<Rightarrow> if x = c then Some xs else None)"

definition kMaxSignificantDigits :: nat where
  "kMaxSignificantDigits = 9"

definition readUnsignedNumeral :: "jsstr \<Rightarrow> nat" where
  "readUnsignedNumeral ds =
     foldl (\<lambda>n c. n * 10 + digitValue c) 0
       (take kMaxSignificantDigits (dropWhile (\<lambda>c. c = 48) ds))"

definition readMilliseconds :: "nat \<Rightarrow> nat \<Rightarrow> nat" where
  "readMilliseconds number len =
     (if len < 3
      then (if len = 1 then number * 100 else if len = 2 then number * 10 else number)
      else if 3 < len then number div 10 ^ (min len kMaxSignificantDigits - 3)
      else number)"

text \<open>
  The fraction, if there is one: the number and the length of its token. Without a
  fraction the length is 0.
\<close>

definition readFraction :: "jsstr \<Rightarrow> ((nat \<times> nat) \<times> jsstr) option" where
  "readFraction s =
     (case s of
        [] \<Rightarrow> Some ((0, 0), [])
      | c # r \<Rightarrow>
          if c = 46
          then (if takeWhile isDigit r = [] then None
                else Some ((readUnsignedNumeral (takeWhile isDigit r),
                            length (takeWhile isDigit r)), dropWhile isDigit r))
          else Some ((0, 0), s))"

definition readZone :: "jsstr \<Rightarrow> bool option" where
  "readZone s = (if s = [] then Some False else if s = [90] then Some True else None)"

definition parseDateTime :: "jsstr \<Rightarrow> dateTime option" where
  "parseDateTime s0 =
     (case readDigits4 s0 of None \<Rightarrow> None | Some (y, s1) \<Rightarrow>
     (case skipSymbol 45 s1 of None \<Rightarrow> None | Some s2 \<Rightarrow>
     (case readDigits2 s2 of None \<Rightarrow> None | Some (mo, s3) \<Rightarrow>
     (case skipSymbol 45 s3 of None \<Rightarrow> None | Some s4 \<Rightarrow>
     (case readDigits2 s4 of None \<Rightarrow> None | Some (d, s5) \<Rightarrow>
     (case skipSymbol 84 s5 of None \<Rightarrow> None | Some s6 \<Rightarrow>
     (case readDigits2 s6 of None \<Rightarrow> None | Some (h, s7) \<Rightarrow>
     (case skipSymbol 58 s7 of None \<Rightarrow> None | Some s8 \<Rightarrow>
     (case readDigits2 s8 of None \<Rightarrow> None | Some (mi, s9) \<Rightarrow>
     (case skipSymbol 58 s9 of None \<Rightarrow> None | Some s10 \<Rightarrow>
     (case readDigits2 s10 of None \<Rightarrow> None | Some (sec, s11) \<Rightarrow>
     (case readFraction s11 of None \<Rightarrow> None | Some ((n, len), s12) \<Rightarrow>
     (case readZone s12 of None \<Rightarrow> None | Some z \<Rightarrow>
        Some \<lparr>year = y, month = mo, day = d, hours = h, minutes = mi, seconds = sec,
              fractionNumber = n, fractionLength = len, utc = z\<rparr>)))))))))))))"

text \<open>
  The milliseconds of the time: those of the fraction, 0 without a fraction.
\<close>

definition milliseconds :: "dateTime \<Rightarrow> nat" where
  "milliseconds d =
     (if fractionLength d = 0 then 0
      else readMilliseconds (fractionNumber d) (fractionLength d))"

text \<open>
  The checks of the parser. While it reads the string: the month is 1 to 12 and the
  day 1 to 31 (with a month or a day out of this range the parser hands the rest of
  the string to its legacy part, which rejects the \<open>T\<close> that follows the date); the
  hour is at most 24, the minute and the second at most 59; after the hour 24 the
  minute, the second and the number of the fraction token are 0. When it writes the
  result: month and day once more, and either hour, minute, second and milliseconds
  are in their ranges, or the time is 24:00:00.000. A day beyond the end of its month
  passes these checks and rolls over into the next month.
\<close>

definition readChecks :: "dateTime \<Rightarrow> bool" where
  "readChecks d =
     (1 \<le> month d \<and> month d \<le> 12 \<and> 1 \<le> day d \<and> day d \<le> 31
      \<and> hours d \<le> 24
      \<and> minutes d \<le> 59 \<and> \<not> (hours d = 24 \<and> 0 < minutes d)
      \<and> seconds d \<le> 59 \<and> \<not> (hours d = 24 \<and> 0 < seconds d)
      \<and> \<not> (hours d = 24 \<and> 0 < fractionNumber d))"

definition writeChecks :: "dateTime \<Rightarrow> bool" where
  "writeChecks d =
     (1 \<le> month d \<and> month d \<le> 12 \<and> 1 \<le> day d \<and> day d \<le> 31
      \<and> ((hours d \<le> 23 \<and> minutes d \<le> 59 \<and> seconds d \<le> 59 \<and> milliseconds d \<le> 999)
         \<or> (hours d = 24 \<and> minutes d = 0 \<and> seconds d = 0 \<and> milliseconds d = 0)))"

definition validDateTime :: "dateTime \<Rightarrow> bool" where
  "validDateTime d = (readChecks d \<and> writeChecks d)"

text \<open>The number of the day \<open>y-m-d\<close>, counted from 1970-01-01, and its inverse.\<close>

definition daysFromCivil :: "int \<Rightarrow> int \<Rightarrow> int \<Rightarrow> int" where
  "daysFromCivil y m d =
     (let y' = (if m \<le> 2 then y - 1 else y);
          era = y' div 400;
          yoe = y' - era * 400;
          doy = (153 * (if 2 < m then m - 3 else m + 9) + 2) div 5 + d - 1;
          doe = yoe * 365 + yoe div 4 - yoe div 100 + doy
      in era * 146097 + doe - 719468)"

definition civilFromDays :: "int \<Rightarrow> int \<times> int \<times> int" where
  "civilFromDays z =
     (let z' = z + 719468;
          era = z' div 146097;
          doe = z' - era * 146097;
          yoe = (doe - doe div 1460 + doe div 36524 - doe div 146096) div 365;
          doy = doe - (365 * yoe + yoe div 4 - yoe div 100);
          mp = (5 * doy + 2) div 153;
          d = doy - (153 * mp + 2) div 5 + 1;
          m = (if mp < 10 then mp + 3 else mp - 9);
          y = yoe + era * 400
      in (if m \<le> 2 then y + 1 else y, m, d))"

definition msPerDay :: int where
  "msPerDay = 86400000"

definition timeClip :: "int \<Rightarrow> int option" where
  "timeClip t = (if \<bar>t\<bar> \<le> 8640000000000000 then Some t else None)"

text \<open>
  The time value of the fields: the day of the first of the month plus the day of the
  month, and the time of the day; read as local time unless the string ends in \<open>Z\<close>.
  (The year has four digits, so the time is within the range in which V8 converts a
  local time.)
\<close>

definition timeValue :: "host \<Rightarrow> dateTime \<Rightarrow> int option" where
  "timeValue h d =
     (if validDateTime d
      then (let t = (daysFromCivil (int (year d)) (int (month d)) 1 + int (day d) - 1) * msPerDay
                    + int (hours d) * 3600000 + int (minutes d) * 60000
                    + int (seconds d) * 1000 + int (milliseconds d)
            in timeClip (if utc d then t else t - localTZA h t False))
      else None)"

definition newDate :: "host \<Rightarrow> jsstr \<Rightarrow> int option" where
  "newDate h s = (case parseDateTime s of None \<Rightarrow> None | Some d \<Rightarrow> timeValue h d)"

text \<open>The getters of a valid \<open>Date\<close>, in local time.\<close>

definition localTime :: "host \<Rightarrow> int \<Rightarrow> int" where
  "localTime h t = t + localTZA h t True"

definition getFullYear :: "host \<Rightarrow> int \<Rightarrow> int" where
  "getFullYear h t = fst (civilFromDays (localTime h t div msPerDay))"

definition getMonth :: "host \<Rightarrow> int \<Rightarrow> int" where
  "getMonth h t = fst (snd (civilFromDays (localTime h t div msPerDay))) - 1"

definition getDate :: "host \<Rightarrow> int \<Rightarrow> int" where
  "getDate h t = snd (snd (civilFromDays (localTime h t div msPerDay)))"

definition getHours :: "host \<Rightarrow> int \<Rightarrow> int" where
  "getHours h t = (localTime h t mod msPerDay) div 3600000"

definition getMinutes :: "host \<Rightarrow> int \<Rightarrow> int" where
  "getMinutes h t = (localTime h t mod 3600000) div 60000"

definition getSeconds :: "host \<Rightarrow> int \<Rightarrow> int" where
  "getSeconds h t = (localTime h t mod 60000) div 1000"


section \<open>Parsing, classifying and formatting one log line\<close>

datatype logType = Error | Warning | Success | Info | Debug

definition logTypeName :: "logType \<Rightarrow> jsstr" where
  "logTypeName t = (case t of Error \<Rightarrow> js ''error'' | Warning \<Rightarrow> js ''warning''
     | Success \<Rightarrow> js ''success'' | Info \<Rightarrow> js ''info'' | Debug \<Rightarrow> js ''debug'')"

record parsedLogLine =
  timestamp :: "int option"
  message :: jsstr

record logStyle =
  type :: logType
  bgClass :: jsstr
  borderColor :: jsstr
  badgeBg :: jsstr
  badgeText :: jsstr

definition LOG_STYLES :: "logType \<Rightarrow> logStyle" where
  "LOG_STYLES t = (case t of
     Error \<Rightarrow> \<lparr>type = Error, bgClass = js ''log-error'', borderColor = js ''#f44336'',
       badgeBg = js ''rgba(244, 67, 54, 0.4)'', badgeText = js ''#ff6b6b''\<rparr>
   | Warning \<Rightarrow> \<lparr>type = Warning, bgClass = js ''log-warning'', borderColor = js ''#ff9800'',
       badgeBg = js ''rgba(255, 152, 0, 0.4)'', badgeText = js ''#ffb74d''\<rparr>
   | Success \<Rightarrow> \<lparr>type = Success, bgClass = js ''log-success'', borderColor = js ''#4caf50'',
       badgeBg = js ''rgba(76, 175, 80, 0.4)'', badgeText = js ''#81c784''\<rparr>
   | Info \<Rightarrow> \<lparr>type = Info, bgClass = js ''log-info'', borderColor = js ''#2196f3'',
       badgeBg = js ''rgba(33, 150, 243, 0.4)'', badgeText = js ''#64b5f6''\<rparr>
   | Debug \<Rightarrow> \<lparr>type = Debug, bgClass = js ''log-debug'', borderColor = js ''#9e9e9e'',
       badgeBg = js ''rgba(158, 158, 158, 0.3)'', badgeText = js ''#bdbdbd''\<rparr>)"

text \<open>
  \<open>timestampRegex\<close> is
  \<^verbatim>\<open>/^(\d{4}-\d{2}-\d{2}[T ]\d{2}:\d{2}:\d{2}(?:\.\d+)?(?:Z| UTC)?)\s+(.*)$/\<close>.
  \<open>timestampGroup\<close> is its first group. Because of the leading \<open>^\<close> a match can only
  begin at the start of the line; \<open>timestampRegex_match\<close> is \<open>line.match(timestampRegex)\<close>
  and gives the two groups of the first match in backtracking order, or none.
  The parts are the first group, \<open>\s+\<close>, the second group \<open>.*\<close> and \<open>$\<close>.
\<close>

definition timestampGroup :: re where
  "timestampGroup = seqs
     [digit, digit, digit, digit, lit (js ''-''), digit, digit, lit (js ''-''), digit, digit,
      Cls (\<lambda>c. c = 84 \<or> c = 32),
      digit, digit, lit (js '':''), digit, digit, lit (js '':''), digit, digit,
      Opt (Seq (lit (js ''.'')) (Rep1 digit)),
      Opt (Alt (lit (js ''Z'')) (lit (js '' UTC'')))]"

definition timestampRegex_match :: "jsstr \<Rightarrow> (jsstr \<times> jsstr) option" where
  "timestampRegex_match line =
     (case firstPath [Seq Bol timestampGroup, Rep1 space, Star dot, Eol] (None, line) of
        Some [(p1, s1), (p2, s2), (p3, s3), (p4, s4)] \<Rightarrow>
          Some (take (length line - length s1) line, take (length s2 - length s3) s2)
      | _ \<Rightarrow> None)"

text \<open>\<open>timestampStr.replace(' UTC', 'Z').replace(' ', 'T')\<close>, the argument of \<open>new Date\<close>.\<close>

definition isoTimestamp :: "jsstr \<Rightarrow> jsstr" where
  "isoTimestamp timestampStr =
     replace (js '' '') (js ''T'') (replace (js '' UTC'') (js ''Z'') timestampStr)"

definition parseLogLine :: "host \<Rightarrow> jsstr \<Rightarrow> parsedLogLine" where
  "parseLogLine h line =
     (case timestampRegex_match line of
        Some (timestampStr, msg) \<Rightarrow>
          \<lparr>timestamp = newDate h (isoTimestamp timestampStr), message = trim msg\<rparr>
      | None \<Rightarrow> \<lparr>timestamp = None, message = line\<rparr>)"

text \<open>
  The patterns of \<open>getLogType\<close>, in the order of the source. All but \<open>stackFrame\<close>
  carry the \<open>i\<close> flag.
\<close>

definition errorToken :: re where
  "errorToken = seqs [Alt Bol space, wordsI [''error'', ''err''], Opt (litI (js '':'')), space]"

definition errorWord :: re where
  "errorWord = seqs [WordB, wordsI [''exception'', ''failed'', ''failure''], WordB]"

definition stackTrace :: re where
  "stackTrace = seqs [litI (js ''stack''), Opt space, litI (js ''trace''), litI (js '':''),
     Star space, Eol]"

definition stackFrame :: re where
  "stackFrame = seqs [Bol, Star space, lit (js ''at''), Rep1 space,
     Rep1 (Cls (\<lambda>c. isWordChar c \<or> c = 46)), Star space, Opt (lit (js ''('')), Rep1 dot,
     lit (js '':''), Rep1 digit, lit (js '':''), Rep1 digit, Opt (lit (js '')''))]"

definition uncaught :: re where
  "uncaught = seqs [WordB, wordsI [''uncaught'', ''unhandled''], Rep1 space,
     wordsI [''exception'', ''error''], WordB]"

definition errorTag :: re where
  "errorTag = seqs [litI (js ''[''), wordsI [''error'', ''err'', ''fatal''], litI (js '']'')]"

definition fatalWord :: re where
  "fatalWord = seqs [WordB, wordsI [''crash'', ''critical'', ''fatal''], WordB]"

definition errorGroup :: "re list" where
  "errorGroup = [errorToken, errorWord, stackTrace, stackFrame, uncaught, errorTag, fatalWord]"

definition warningToken :: re where
  "warningToken = seqs [Alt Bol space, wordsI [''warning'', ''warn''], Opt (litI (js '':'')), space]"

definition warningTag :: re where
  "warningTag = seqs [litI (js ''[''),
     Alt (Seq (litI (js ''warn'')) (Opt (litI (js ''ing'')))) (litI (js ''attention'')),
     litI (js '']'')]"

definition deprecated :: re where
  "deprecated = wordsI [''deprecated'', ''obsolete'']"

definition caution :: re where
  "caution = seqs [WordB, wordsI [''caution'', ''attention'', ''notice''], litI (js '':''), space]"

definition warningGlyph :: re where
  "warningGlyph = Alt (chrI 9888) (Seq (chrI 9888) (chrI 65039))"

definition warningGroup :: "re list" where
  "warningGroup = [warningToken, warningTag, deprecated, caution, warningGlyph]"

definition successPhrase :: re where
  "successPhrase = seqs [Alt (litI (js ''successfully'')) (Seq (litI (js ''complete'')) (Opt (chrI 100))),
     Rep1 space,
     wordsI [''initialized'', ''started'', ''completed'', ''created'', ''done'', ''deployed'']]"

definition successTag :: re where
  "successTag = seqs [litI (js ''[''), wordsI [''success'', ''ok'', ''done''], litI (js '']'')]"

definition listening :: re where
  "listening = seqs [wordsI [''listening'', ''running''], Rep1 space, wordsI [''on'', ''at''],
     Rep1 space, Opt (Seq (litI (js ''port'')) (Rep1 space)), Rep1 digit]"

definition connected :: re where
  "connected = seqs [wordsI [''connected'', ''established'', ''ready''], Rep1 space,
     wordsI [''to'', ''for'', ''on'']]"

definition successGlyph :: re where
  "successGlyph = alts [chrI 10003, chrI 8730, chrI 9989, litI (js ''[ok]''), litI (js ''done!'')]"

definition successWord :: re where
  "successWord = seqs [WordB,
     alts [Seq (litI (js ''success'')) (Opt (litI (js ''ful''))), litI (js ''completed''),
           litI (js ''ready'')],
     WordB]"

definition successGroup :: "re list" where
  "successGroup = [successPhrase, successTag, listening, connected, successGlyph, successWord]"

definition infoToken :: re where
  "infoToken = seqs [Alt Bol space, wordsI [''info'', ''inf'', ''information''],
     Opt (litI (js '':'')), space]"

definition infoTag :: re where
  "infoTag = seqs [litI (js ''[''), wordsI [''info'', ''information''], litI (js '']'')]"

definition statusWord :: re where
  "statusWord = seqs [WordB, wordsI [''status'', ''state'', ''current'', ''progress''], WordB,
     Opt (litI (js '':'')), space]"

definition processing :: re where
  "processing = seqs [WordB, wordsI [''processing'', ''executing'', ''performing''], WordB]"

definition building :: re where
  "building = seqs [WordB,
     wordsI [''cloning'', ''building'', ''installing'', ''downloading'', ''fetching''], WordB]"

definition infoGroup :: "re list" where
  "infoGroup = [infoToken, infoTag, statusWord, processing, building]"

definition getLogType :: "host \<Rightarrow> jsstr \<Rightarrow> logStyle" where
  "getLogType h msg =
     (let lowerMessage = toLowerCase h msg in
      if test errorToken lowerMessage \<or> test errorWord lowerMessage
         \<or> test stackTrace lowerMessage \<or> test stackFrame lowerMessage
         \<or> test uncaught lowerMessage \<or> test errorTag lowerMessage
         \<or> test fatalWord lowerMessage
      then LOG_STYLES Error
      else if test warningToken lowerMessage \<or> test warningTag lowerMessage
         \<or> test deprecated lowerMessage \<or> test caution lowerMessage
         \<or> test warningGlyph lowerMessage
      then LOG_STYLES Warning
      else if test successPhrase lowerMessage \<or> test successTag lowerMessage
         \<or> test listening lowerMessage \<or> test connected lowerMessage
         \<or> test successGlyph lowerMessage \<or> test successWord lowerMessage
      then LOG_STYLES Success
      else if test infoToken lowerMessage \<or> test infoTag lowerMessage
         \<or> test statusWord lowerMessage \<or> test processing lowerMessage
         \<or> test building lowerMessage
      then LOG_STYLES Info
      else LOG_STYLES Debug)"

definition pad :: "int \<Rightarrow> jsstr" where
  "pad n = padStart2 (toString n)"

definition formatTimestamp :: "host \<Rightarrow> int \<Rightarrow> jsstr" where
  "formatTimestamp h date =
     (let year = getFullYear h date;
          month = pad (getMonth h date + 1);
          day = pad (getDate h date);
          hours = pad (getHours h date);
          minutes = pad (getMinutes h date);
          seconds = pad (getSeconds h date)
      in toString year @ js ''-'' @ month @ js ''-'' @ day @ js '' '' @ hours @ js '':''
         @ minutes @ js '':'' @ seconds)"

definition escapeHtml :: "jsstr \<Rightarrow> jsstr" where
  "escapeHtml text =
     replaceAll 39 (js ''&#039;'')
       (replaceAll 34 (js ''&quot;'')
         (replaceAll 62 (js ''&gt;'')
           (replaceAll 60 (js ''&lt;'')
             (replaceAll 38 (js ''&amp;'') text))))"


section \<open>The log view: data\<close>

text \<open>
  A JavaScript number: NaN, an infinity (with its sign), or a finite value, given by the
  rational it denotes. \<open>truthyNumber\<close> and \<open>truthyString\<close> are the conversions to
  boolean of an optional number and of an optional string, none being \<open>undefined\<close>.
\<close>

datatype number = NaN | Infinite bool | Finite rat

definition truthyNumber :: "number option \<Rightarrow> bool" where
  "truthyNumber v =
     (case v of None \<Rightarrow> False | Some NaN \<Rightarrow> False | Some (Infinite _) \<Rightarrow> True
      | Some (Finite q) \<Rightarrow> q \<noteq> 0)"

definition truthyString :: "jsstr option \<Rightarrow> bool" where
  "truthyString v = (case v of None \<Rightarrow> False | Some s \<Rightarrow> s \<noteq> [])"

record container =
  containerId :: jsstr
  containerName :: jsstr
  containerImage :: jsstr
  containerState :: jsstr
  containerStatus :: jsstr

record application =
  applicationId :: jsstr
  name :: jsstr
  appName :: jsstr
  serverId :: "jsstr option"

text \<open>
  The client and the configuration of a socket. A URL is kept as the values it is built
  from: a URL given as text, or the runtime log URL of an endpoint for a container, a tail
  and an optional server.
\<close>

record dokployClient =
  endpoint :: jsstr
  apiKey :: jsstr

datatype wsUrl = Url jsstr | RuntimeLogUrl jsstr jsstr number "jsstr option"

type_synonym headers = "(jsstr \<times> jsstr) list"

record wsConfig =
  url :: wsUrl
  headers :: headers

definition getRuntimeLogWsConfig ::
  "dokployClient \<Rightarrow> jsstr \<Rightarrow> number \<Rightarrow> jsstr option \<Rightarrow> wsConfig" where
  "getRuntimeLogWsConfig c cid t sid =
     \<lparr>url = RuntimeLogUrl (endpoint c) cid t (if truthyString sid then sid else None),
      headers = [(js ''x-api-key'', apiKey c)]\<rparr>"

record runtimeLogsConfig =
  app :: application
  client :: dokployClient
  containers :: "container list"
  selectedContainerId :: jsstr
  tail :: number

datatype command = ChangeContainer | ChangeTail | Refresh

record webviewMessage =
  command :: command
  msgContainerId :: "jsstr option"
  msgTail :: "number option"

text \<open>
  The page shown by the panel. The three page templates of the class are fixed text around
  the values put into them, so a page is kept as its template and those values: \<open>Html\<close>
  is \<open>getHtml\<close>, \<open>RuntimeHtml\<close> is \<open>getRuntimeHtml\<close>, \<open>EmptyStateHtml\<close> is
  \<open>getEmptyStateHtml\<close>, and \<open>NoHtml\<close> is the page of a panel just created.
\<close>

datatype page =
    NoHtml
  | Html jsstr
  | RuntimeHtml jsstr "container list" jsstr number
  | EmptyStateHtml jsstr

text \<open>
  The panel: its title, its page, and the number of message handlers registered on its
  webview. The socket: what it was opened with, and the \<open>isRuntime\<close> argument its event
  handlers have captured.
\<close>

record webviewPanel =
  title :: jsstr
  html :: page
  messageHandlers :: nat

record webSocket =
  wsUrl :: wsUrl
  wsHeaders :: "headers option"
  wsRuntime :: bool

text \<open>
  The fields of the class \<open>LogsWebview\<close>; \<open>timestampOn\<close> is the field \<open>timestamp\<close>.
  \<open>closedSockets\<close> records the effect of \<open>close()\<close>: the sockets closed so far, oldest
  first.
\<close>

record logsWebview =
  extensionUri :: jsstr
  panel :: "webviewPanel option"
  ws :: "webSocket option"
  logBuffer :: jsstr
  timestampOn :: bool
  runtimeConfig :: "runtimeLogsConfig option"
  isRuntimeLogs :: bool
  closedSockets :: "webSocket list"

definition LogsWebview :: "jsstr \<Rightarrow> bool option \<Rightarrow> logsWebview" where
  "LogsWebview uri timestampArg =
     \<lparr>extensionUri = uri, panel = None, ws = None, logBuffer = [],
      timestampOn = (case timestampArg of None \<Rightarrow> False | Some b \<Rightarrow> b),
      runtimeConfig = None, isRuntimeLogs = False, closedSockets = []\<rparr>"

text \<open>\<open>activate\<close> of the extension constructs the view without a timestamp argument.\<close>

definition activate_logsWebview :: "jsstr \<Rightarrow> logsWebview" where
  "activate_logsWebview uri = LogsWebview uri None"


section \<open>The log view: rendering\<close>

definition emptyLineHtml :: jsstr where
  "emptyLineHtml = js ''<div class=\"log-line log-empty\">&nbsp;</div>''"

text \<open>
  The template of a rendered line; \<open>ind\<close> is the indentation of its last line in the
  source, the lines between are indented by two more spaces.
\<close>

definition logLineHtml :: "jsstr \<Rightarrow> logStyle \<Rightarrow> jsstr \<Rightarrow> jsstr \<Rightarrow> jsstr" where
  "logLineHtml ind style timestampHtml messageHtml =
     js ''<div class=\"log-line '' @ bgClass style @ js ''\">'' @ [10]
     @ ind @ js ''  <div class=\"log-border\" style=\"background-color: '' @ borderColor style
       @ js ''\"></div>'' @ [10]
     @ ind @ js ''  '' @ timestampHtml @ [10]
     @ ind @ js ''  <span class=\"log-badge\" style=\"background-color: '' @ badgeBg style
       @ js ''; color: '' @ badgeText style @ js ''\">'' @ logTypeName (type style)
       @ js ''</span>'' @ [10]
     @ ind @ js ''  <span class=\"log-message\">'' @ messageHtml @ js ''</span>'' @ [10]
     @ ind @ js ''</div>''"

text \<open>The function that \<open>updateContent\<close> maps over the lines.\<close>

definition updateContent_line :: "host \<Rightarrow> bool \<Rightarrow> jsstr \<Rightarrow> jsstr" where
  "updateContent_line h ts line =
     (if trim line = [] then emptyLineHtml
      else
        (let parsed = parseLogLine h line;
             style = getLogType h (message parsed);
             messageHtml = ansiToHtml h (escapeHtml (message parsed));
             timestampHtml =
               (if ts
                then (case timestamp parsed of
                        Some d \<Rightarrow> js ''<span class=\"log-timestamp\">'' @ formatTimestamp h d
                                  @ js ''</span>''
                      | None \<Rightarrow> js ''<span class=\"log-timestamp\"></span>'')
                else [])
         in logLineHtml (js ''      '') style timestampHtml messageHtml))"

definition formatLogLine :: "host \<Rightarrow> bool \<Rightarrow> jsstr \<Rightarrow> jsstr" where
  "formatLogLine h ts line =
     (if trim line = [] then emptyLineHtml
      else
        (let parsed = parseLogLine h line;
             style = getLogType h (message parsed);
             messageHtml = ansiToHtml h (escapeHtml (message parsed));
             timestampHtml =
               (case timestamp parsed of
                  Some d \<Rightarrow>
                    if ts then js ''<span class=\"log-timestamp\">'' @ formatTimestamp h d
                               @ js ''</span>''
                    else []
                | None \<Rightarrow> [])
         in logLineHtml (js ''    '') style timestampHtml messageHtml))"

definition updateContent :: "host \<Rightarrow> jsstr \<Rightarrow> logsWebview \<Rightarrow> logsWebview" where
  "updateContent h logContent s =
     (case panel s of
        None \<Rightarrow> s
      | Some p \<Rightarrow>
          (let lines = split 10 logContent;
               htmlLines = map (updateContent_line h (timestampOn s)) lines
           in s\<lparr>panel := Some (p\<lparr>html := Html (join [10] htmlLines)\<rparr>)\<rparr>))"

definition updateRuntimeContent ::
  "host \<Rightarrow> jsstr \<Rightarrow> container list \<Rightarrow> jsstr \<Rightarrow> number \<Rightarrow> logsWebview \<Rightarrow> logsWebview" where
  "updateRuntimeContent h logContent cs sel t s =
     (case panel s of
        None \<Rightarrow> s
      | Some p \<Rightarrow>
          (let lines = split 10 logContent;
               htmlLines = map (formatLogLine h (timestampOn s)) lines
           in s\<lparr>panel := Some (p\<lparr>html := RuntimeHtml (join [10] htmlLines) cs sel t\<rparr>)\<rparr>))"


section \<open>The log view: methods\<close>

definition closeWebSocket :: "logsWebview \<Rightarrow> logsWebview" where
  "closeWebSocket s =
     (case ws s of
        Some w \<Rightarrow> s\<lparr>ws := None, closedSockets := closedSockets s @ [w]\<rparr>
      | None \<Rightarrow> s)"

text \<open>The callback of \<open>onDidDispose\<close>, registered when the panel is created.\<close>

definition onDidDispose :: "logsWebview \<Rightarrow> logsWebview" where
  "onDidDispose s =
     (closeWebSocket (s\<lparr>panel := None\<rparr>))\<lparr>runtimeConfig := None, isRuntimeLogs := False\<rparr>"

definition createOrRevealPanel :: "jsstr \<Rightarrow> logsWebview \<Rightarrow> logsWebview" where
  "createOrRevealPanel t s =
     (case panel s of
        Some p \<Rightarrow> s\<lparr>panel := Some (p\<lparr>title := t\<rparr>)\<rparr>
      | None \<Rightarrow> s\<lparr>panel := Some \<lparr>title = t, html = NoHtml, messageHandlers = 0\<rparr>\<rparr>)"

definition setupMessageHandler :: "logsWebview \<Rightarrow> logsWebview" where
  "setupMessageHandler s =
     (case panel s of
        None \<Rightarrow> s
      | Some p \<Rightarrow> s\<lparr>panel := Some (p\<lparr>messageHandlers := Suc (messageHandlers p)\<rparr>)\<rparr>)"

text \<open>
  \<open>connectWebSocket\<close> closes the socket in use and opens a new one. The four handlers it
  registers on the new socket are the functions \<open>onOpen\<close>, \<open>onMessage\<close>, \<open>onError\<close>
  and \<open>onClose\<close> below, which take the captured \<open>isRuntime\<close> as an argument.
\<close>

definition connectWebSocket ::
  "wsUrl \<Rightarrow> headers option \<Rightarrow> bool \<Rightarrow> logsWebview \<Rightarrow> logsWebview" where
  "connectWebSocket u hs isRuntime s =
     (closeWebSocket s)\<lparr>ws := Some \<lparr>wsUrl = u, wsHeaders = hs, wsRuntime = isRuntime\<rparr>\<rparr>"

definition onOpen :: "host \<Rightarrow> bool \<Rightarrow> logsWebview \<Rightarrow> logsWebview" where
  "onOpen h isRuntime s0 =
     (let s = s0\<lparr>logBuffer := []\<rparr> in
      case (if isRuntime then runtimeConfig s else None) of
        Some cfg \<Rightarrow>
          updateRuntimeContent h (js ''Connected. Waiting for logs...'')
            (containers cfg) (selectedContainerId cfg) (tail cfg) s
      | None \<Rightarrow> updateContent h (js ''Connected. Waiting for logs...'') s)"

text \<open>\<open>onMessage\<close> takes the text of the frame, \<open>data.toString()\<close>.\<close>

definition onMessage :: "host \<Rightarrow> bool \<Rightarrow> jsstr \<Rightarrow> logsWebview \<Rightarrow> logsWebview" where
  "onMessage h isRuntime msg s0 =
     (let s = s0\<lparr>logBuffer := logBuffer s0 @ msg\<rparr> in
      case (if isRuntime then runtimeConfig s else None) of
        Some cfg \<Rightarrow>
          updateRuntimeContent h (logBuffer s)
            (containers cfg) (selectedContainerId cfg) (tail cfg) s
      | None \<Rightarrow> updateContent h (logBuffer s) s)"

text \<open>\<open>onError\<close> takes \<open>error.message\<close>.\<close>

definition onError :: "host \<Rightarrow> bool \<Rightarrow> jsstr \<Rightarrow> logsWebview \<Rightarrow> logsWebview" where
  "onError h isRuntime errorMessage s =
     (let errorContent = js ''Connection error: '' @ errorMessage @ [10, 10] @ logBuffer s in
      case (if isRuntime then runtimeConfig s else None) of
        Some cfg \<Rightarrow>
          updateRuntimeContent h errorContent
            (containers cfg) (selectedContainerId cfg) (tail cfg) s
      | None \<Rightarrow> updateContent h errorContent s)"

definition onClose :: "host \<Rightarrow> bool \<Rightarrow> logsWebview \<Rightarrow> logsWebview" where
  "onClose h isRuntime s =
     (if logBuffer s \<noteq> []
      then (let closedContent = logBuffer s @ [10, 10] @ js ''--- Log stream ended ---'' in
            case (if isRuntime then runtimeConfig s else None) of
              Some cfg \<Rightarrow>
                updateRuntimeContent h closedContent
                  (containers cfg) (selectedContainerId cfg) (tail cfg) s
            | None \<Rightarrow> updateContent h closedContent s)
      else s)"

definition connectToRuntimeLogs :: "host \<Rightarrow> logsWebview \<Rightarrow> logsWebview" where
  "connectToRuntimeLogs h s =
     (case runtimeConfig s of
        None \<Rightarrow> s
      | Some cfg \<Rightarrow>
          (case panel s of
             None \<Rightarrow> s
           | Some _ \<Rightarrow>
               (let wsConfig = getRuntimeLogWsConfig (client cfg) (selectedContainerId cfg)
                                 (tail cfg) (serverId (app cfg));
                    s1 = s\<lparr>logBuffer := []\<rparr>;
                    s2 = updateRuntimeContent h (js ''Connecting to log stream...'')
                           (containers cfg) (selectedContainerId cfg) (tail cfg) s1
                in connectWebSocket (url wsConfig) (Some (headers wsConfig)) True s2)))"

definition showEmptyState :: "jsstr \<Rightarrow> logsWebview \<Rightarrow> logsWebview" where
  "showEmptyState appName' s0 =
     (let s1 = createOrRevealPanel (js ''Runtime Logs: '' @ appName') s0;
          s2 = setupMessageHandler (s1\<lparr>isRuntimeLogs := True\<rparr>)
      in case panel s2 of
           None \<Rightarrow> s2
         | Some p \<Rightarrow> s2\<lparr>panel := Some (p\<lparr>html := EmptyStateHtml appName'\<rparr>)\<rparr>)"

text \<open>
  \<open>showRuntimeLogs\<close> and the \<open>refresh\<close> command await the containers of the
  application from the server; the answer is the argument \<open>cs\<close>.
\<close>

definition showRuntimeLogs ::
  "host \<Rightarrow> application \<Rightarrow> dokployClient \<Rightarrow> container list \<Rightarrow> logsWebview \<Rightarrow> logsWebview" where
  "showRuntimeLogs h a c cs s =
     (case cs of
        [] \<Rightarrow> showEmptyState (name a) s
      | c0 # _ \<Rightarrow>
          (let s1 = s\<lparr>runtimeConfig := Some \<lparr>app = a, client = c, containers = cs,
                          selectedContainerId = containerId c0, tail = Finite 100\<rparr>,
                      isRuntimeLogs := True\<rparr>;
               s2 = createOrRevealPanel (js ''Runtime Logs: '' @ name a) s1;
               s3 = setupMessageHandler s2
           in connectToRuntimeLogs h s3))"

definition showWithWebSocket ::
  "host \<Rightarrow> jsstr \<Rightarrow> jsstr \<Rightarrow> headers option \<Rightarrow> logsWebview \<Rightarrow> logsWebview" where
  "showWithWebSocket h t u hs s =
     (let s1 = createOrRevealPanel t (s\<lparr>isRuntimeLogs := False, runtimeConfig := None\<rparr>);
          s2 = updateContent h (js ''Connecting to log stream...'') (s1\<lparr>logBuffer := []\<rparr>)
      in connectWebSocket (Url u) hs False s2)"

text \<open>The message handler that \<open>setupMessageHandler\<close> registers.\<close>

definition handleMessage ::
  "host \<Rightarrow> webviewMessage \<Rightarrow> container list \<Rightarrow> logsWebview \<Rightarrow> logsWebview" where
  "handleMessage h m cs s =
     (case runtimeConfig s of
        None \<Rightarrow> s
      | Some cfg \<Rightarrow>
          (case command m of
             ChangeContainer \<Rightarrow>
               (case msgContainerId m of
                  None \<Rightarrow> s
                | Some cid \<Rightarrow>
                    if cid \<noteq> []
                    then connectToRuntimeLogs h
                           (s\<lparr>runtimeConfig := Some (cfg\<lparr>selectedContainerId := cid\<rparr>)\<rparr>)
                    else s)
           | ChangeTail \<Rightarrow>
               (case msgTail m of
                  None \<Rightarrow> s
                | Some t \<Rightarrow>
                    if truthyNumber (Some t)
                    then connectToRuntimeLogs h (s\<lparr>runtimeConfig := Some (cfg\<lparr>tail := t\<rparr>)\<rparr>)
                    else s)
           | Refresh \<Rightarrow>
               (case cs of
                  [] \<Rightarrow> showEmptyState (name (app cfg)) s
                | c0 # _ \<Rightarrow>
                    connectToRuntimeLogs h
                      (s\<lparr>runtimeConfig :=
                           Some (cfg\<lparr>containers := cs, selectedContainerId := containerId c0\<rparr>)\<rparr>))))"

text \<open>
  A message from the webview runs every handler registered on the panel, one after the
  other.
\<close>

definition didReceiveMessage ::
  "host \<Rightarrow> webviewMessage \<Rightarrow> container list \<Rightarrow> logsWebview \<Rightarrow> logsWebview" where
  "didReceiveMessage h m cs s =
     (case panel s of
        None \<Rightarrow> s
      | Some p \<Rightarrow> (handleMessage h m cs ^^ messageHandlers p) s)"

definition dispose :: "logsWebview \<Rightarrow> logsWebview" where
  "dispose s0 =
     (let s = closeWebSocket s0 in
      case panel s of None \<Rightarrow> s | Some _ \<Rightarrow> onDidDispose s)"

text \<open>
  What can happen to the view: a call of one of its public methods, a message from the
  webview, the disposal of the panel by the user, and the four events of a socket, each
  with the \<open>isRuntime\<close> of the socket that raises it.
\<close>

datatype event =
    ShowRuntimeLogs application dokployClient "container list"
  | ShowWithWebSocket jsstr jsstr "headers option"
  | DidReceiveMessage webviewMessage "container list"
  | DidDispose
  | WsOpen bool
  | WsMessage bool jsstr
  | WsError bool jsstr
  | WsClose bool
  | Dispose

fun step :: "host \<Rightarrow> logsWebview \<Rightarrow> event \<Rightarrow> logsWebview" where
  "step h s (ShowRuntimeLogs a c cs) = showRuntimeLogs h a c cs s"
| "step h s (ShowWithWebSocket t u hs) = showWithWebSocket h t u hs s"
| "step h s (DidReceiveMessage m cs) = didReceiveMessage h m cs s"
| "step h s DidDispose = (case panel s of None \<Rightarrow> s | Some _ \<Rightarrow> onDidDispose s)"
| "step h s (WsOpen r) = onOpen h r s"
| "step h s (WsMessage r msg) = onMessage h r msg s"
| "step h s (WsError r e) = onError h r e s"
| "step h s (WsClose r) = onClose h r s"
| "step h s Dispose = dispose s"

definition run :: "host \<Rightarrow> logsWebview \<Rightarrow> event list \<Rightarrow> logsWebview" where
  "run h s es = foldl (step h) s es"

text \<open>
  What the handlers of a socket render in a state: the line function of the runtime path when
  the socket was opened for runtime logs and a configuration is present, that of the plain
  path otherwise; \<open>rendered\<close> is the sequence of rendered lines of a log content, before
  they are joined. \<open>shown\<close> is the log content of the page on display, if it has one.
\<close>

definition renderedLine :: "host \<Rightarrow> bool \<Rightarrow> logsWebview \<Rightarrow> jsstr \<Rightarrow> jsstr" where
  "renderedLine h isRuntime s line =
     (if isRuntime \<and> runtimeConfig s \<noteq> None
      then formatLogLine h (timestampOn s) line
      else updateContent_line h (timestampOn s) line)"

definition rendered :: "host \<Rightarrow> bool \<Rightarrow> logsWebview \<Rightarrow> jsstr \<Rightarrow> jsstr list" where
  "rendered h isRuntime s logContent = map (renderedLine h isRuntime s) (split 10 logContent)"

definition shown :: "logsWebview \<Rightarrow> jsstr option" where
  "shown s =
     (case panel s of
        None \<Rightarrow> None
      | Some p \<Rightarrow>
          (case html p of
             Html c \<Rightarrow> Some c
           | RuntimeHtml c _ _ _ \<Rightarrow> Some c
           | _ \<Rightarrow> None))"

text \<open>A rule group of the classifier has a pattern that matches the message.\<close>

definition groupMatches :: "host \<Rightarrow> re list \<Rightarrow> jsstr \<Rightarrow> bool" where
  "groupMatches h g msg = (\<exists>r \<in> set g. test r (toLowerCase h msg))"


text \<open>
  A message from the webview that replaces the session: a change of container that names
  one, a change of tail with a number that counts as true, a refresh that finds containers.
\<close>

definition replacesSession :: "webviewMessage \<Rightarrow> container list \<Rightarrow> bool" where
  "replacesSession m cs =
     (case command m of
        ChangeContainer \<Rightarrow> truthyString (msgContainerId m)
      | ChangeTail \<Rightarrow> truthyNumber (msgTail m)
      | Refresh \<Rightarrow> cs \<noteq> [])"


section \<open>Examples\<close>

text \<open>
  A host for the examples: the local time zone is UTC; the converter leaves its input
  as it is, which is what ansi-to-html does to a text without control characters; and
  the lower-case mapping is that of Basic Latin, which is what \<open>toLowerCase\<close> does to a
  text whose code units are all below 128. The examples contain no control character
  and no code unit from 128 on.
\<close>

definition asciiToLowerCase :: "jsstr \<Rightarrow> jsstr" where
  "asciiToLowerCase s = map (\<lambda>c. if 65 \<le> c \<and> c \<le> 90 then c + 32 else c) s"

definition plainHost :: host where
  "plainHost = \<lparr>ansiToHtml = (\<lambda>s. s), localTZA = (\<lambda>t isUTC. 0),
                 toLowerCase = asciiToLowerCase\<rparr>"

definition exampleApp :: application where
  "exampleApp = \<lparr>applicationId = js ''a1'', name = js ''web'', appName = js ''web-x1'',
     serverId = None\<rparr>"

definition exampleClient :: dokployClient where
  "exampleClient = \<lparr>endpoint = js ''https://dokploy.example'', apiKey = js ''key''\<rparr>"

definition exampleContainer :: container where
  "exampleContainer = \<lparr>containerId = js ''c1'', containerName = js ''web-1'',
     containerImage = js ''web:latest'', containerState = js ''running'',
     containerStatus = js ''Up''\<rparr>"

text \<open>A deployment log session that is connected, and a runtime log session likewise.\<close>

definition exampleSession :: logsWebview where
  "exampleSession = run plainHost (activate_logsWebview (js ''ext''))
     [ShowWithWebSocket (js ''Deployment: d1'') (js ''wss://dokploy.example/listen-deployment'')
        None,
      WsOpen False]"

definition exampleRuntimeSession :: logsWebview where
  "exampleRuntimeSession = run plainHost (activate_logsWebview (js ''ext''))
     [ShowRuntimeLogs exampleApp exampleClient [exampleContainer], WsOpen True]"


section \<open>Evaluation\<close>

text \<open>The definitions to unfold when a concrete input is evaluated by the simplifier.\<close>

lemmas char_defs = js_def isDigit_def isWordChar_def isLineTerminator_def isSpace_def
  notLineTerminator_def wordBefore_def wordAfter_def canonicalize_def digitValue_def

lemmas re_defs = chr_def chrI_def Rep1_def words_def wordsI_def digit_def space_def dot_def
  test_def ends.simps(6)

lemmas group_defs = errorToken_def errorWord_def stackTrace_def stackFrame_def uncaught_def
  errorTag_def fatalWord_def warningToken_def warningTag_def deprecated_def caution_def
  warningGlyph_def successPhrase_def successTag_def listening_def connected_def
  successGlyph_def successWord_def infoToken_def infoTag_def statusWord_def processing_def
  building_def

lemmas date_defs = newDate_def parseDateTime_def skipSymbol_def readFraction_def readZone_def
  timeValue_def validDateTime_def readChecks_def writeChecks_def milliseconds_def
  daysFromCivil_def readMilliseconds_def readUnsignedNumeral_def kMaxSignificantDigits_def
  msPerDay_def timeClip_def readDigits2_def readDigits4_def isoTimestamp_def

lemmas parse_defs = parseLogLine_def timestampRegex_match_def timestampGroup_def trim_def

lemmas line_defs = updateContent_line_def formatLogLine_def getLogType_def
  asciiToLowerCase_def escapeHtml_def replaceAll_def Let_def

lemmas session_defs = run_def activate_logsWebview_def LogsWebview_def showWithWebSocket_def
  showRuntimeLogs_def createOrRevealPanel_def setupMessageHandler_def connectWebSocket_def
  closeWebSocket_def connectToRuntimeLogs_def updateContent_def updateRuntimeContent_def
  onOpen_def getRuntimeLogWsConfig_def truthyString_def Let_def

lemmas example_defs = exampleApp_def exampleClient_def exampleContainer_def plainHost_def


section \<open>Splitting a log content into lines\<close>

lemma split_not_Nil: "split d s \<noteq> []"
  by (induction s) (auto split: list.splits)

lemma split_Cons_other: "c \<noteq> d \<Longrightarrow> split d (c # cs) = (c # hd (split d cs)) # tl (split d cs)"
  using split_not_Nil [of d cs] by (cases "split d cs") auto

lemma split_append_sep: "split d (a @ d # b) = split d a @ split d b"
proof (induction a)
  case Nil
  show ?case by simp
next
  case (Cons c a)
  show ?case
  proof (cases "c = d")
    case True
    with Cons show ?thesis by simp
  next
    case False
    obtain l ls where "split d a = l # ls"
      using split_not_Nil [of d a] by (cases "split d a") auto
    with False Cons show ?thesis by simp
  qed
qed

lemma split_no_sep: "d \<notin> set a \<Longrightarrow> split d a = [a]"
  by (induction a) auto

lemma split_append:
  "split d (a @ b) = butlast (split d a) @ (last (split d a) @ hd (split d b)) # tl (split d b)"
proof (induction a)
  case Nil
  show ?case using split_not_Nil [of d b] by (cases "split d b") auto
next
  case (Cons c a)
  obtain l ls where a: "split d a = l # ls"
    using split_not_Nil [of d a] by (cases "split d a") auto
  obtain m ms where ab: "split d (a @ b) = m # ms"
    using split_not_Nil [of d "a @ b"] by (cases "split d (a @ b)") auto
  show ?case
  proof (cases "c = d")
    case True
    with Cons a show ?thesis by simp
  next
    case False
    show ?thesis
    proof (cases ls)
      case Nil
      with False Cons a ab show ?thesis by simp
    next
      case (Cons l' ls')
      with False Cons.IH a ab show ?thesis by simp
    qed
  qed
qed

lemma length_split: "length (split d s) = Suc (length (filter (\<lambda>c. c = d) s))"
proof (induction s)
  case Nil
  show ?case by simp
next
  case (Cons c s)
  obtain l ls where "split d s = l # ls"
    using split_not_Nil [of d s] by (cases "split d s") auto
  with Cons show ?case by auto
qed

lemma prefix_butlast_split: "prefix (butlast (split d a)) (split d (a @ b))"
  by (simp add: split_append)

lemma last_split: "last (split d s) = rev (takeWhile (\<lambda>c. c \<noteq> d) (rev s))"
proof (induction s rule: rev_induct)
  case Nil
  show ?case by simp
next
  case (snoc x xs)
  show ?case
  proof (cases "x = d")
    case True
    have "split d (xs @ [d]) = split d xs @ split d []"
      using split_append_sep [of d xs "[]"] by simp
    with True show ?thesis by simp
  next
    case False
    have "split d (xs @ [x]) = butlast (split d xs) @ [last (split d xs) @ [x]]"
      using False by (simp add: split_append)
    with False snoc show ?thesis by simp
  qed
qed


section \<open>The rendered lines of a log content\<close>

lemma length_map_split:
  "length (map f (split d b)) = Suc (length (filter (\<lambda>c. c = d) b))"
  by (simp add: length_split)

lemma last_map_split:
  "last (map f (split d b)) = f (rev (takeWhile (\<lambda>c. c \<noteq> d) (rev b)))"
  by (simp add: last_map split_not_Nil last_split)

lemma prefix_map_split:
  "prefix (butlast (map f (split d a))) (map f (split d (a @ b)))"
proof -
  have "prefix (map f (butlast (split d a))) (map f (split d (a @ b)))"
    by (rule map_mono_prefix) (rule prefix_butlast_split)
  then show ?thesis by (simp add: map_butlast)
qed

lemma map_split_two_breaks:
  "map f (split d (a @ [d, d] @ b)) = map f (split d a) @ f [] # map f (split d b)"
proof -
  have "split d (a @ d # d # b) = split d a @ split d (d # b)"
    by (rule split_append_sep)
  then show ?thesis by simp
qed

lemma updateContent_line_Nil: "updateContent_line h ts [] = emptyLineHtml"
  by (simp add: updateContent_line_def trim_def)

lemma formatLogLine_Nil: "formatLogLine h ts [] = emptyLineHtml"
  by (simp add: formatLogLine_def trim_def)

lemma renderedLine_Nil: "renderedLine h r s [] = emptyLineHtml"
  by (simp add: renderedLine_def updateContent_line_Nil formatLogLine_Nil)

lemma length_rendered:
  "length (rendered h r s b) = Suc (length (filter (\<lambda>c. c = 10) b))"
  by (simp add: rendered_def length_split)

lemma last_rendered:
  "last (rendered h r s b) = renderedLine h r s (rev (takeWhile (\<lambda>c. c \<noteq> 10) (rev b)))"
  unfolding rendered_def by (rule last_map_split)

lemma prefix_rendered:
  "prefix (butlast (rendered h r s a)) (rendered h r s (a @ b))"
  unfolding rendered_def by (rule prefix_map_split)

lemma rendered_two_breaks:
  "rendered h r s (a @ [10, 10] @ b) = rendered h r s a @ emptyLineHtml # rendered h r s b"
  unfolding rendered_def by (simp only: map_split_two_breaks renderedLine_Nil)

lemma rendered_no_break:
  "10 \<notin> set a \<Longrightarrow> rendered h r s a = [renderedLine h r s a]"
  by (simp add: rendered_def split_no_sep)

section \<open>What the handlers of a socket show\<close>

lemma renderedLine_fun:
  "renderedLine h r s =
     (if r \<and> runtimeConfig s \<noteq> None then formatLogLine h (timestampOn s)
      else updateContent_line h (timestampOn s))"
  by (rule ext) (auto simp: renderedLine_def)

lemmas handler_defs = shown_def rendered_def renderedLine_fun updateContent_def
  updateRuntimeContent_def Let_def

lemma shown_onMessage:
  "panel s \<noteq> None \<Longrightarrow>
   shown (onMessage h r c s) = Some (join [10] (rendered h r s (logBuffer s @ c)))"
  by (auto simp: onMessage_def handler_defs split: option.splits)

lemma logBuffer_onMessage: "logBuffer (onMessage h r c s) = logBuffer s @ c"
  by (auto simp: onMessage_def handler_defs split: option.splits)

lemma shown_onError:
  "panel s \<noteq> None \<Longrightarrow>
   shown (onError h r e s) =
     Some (join [10] (rendered h r s (js ''Connection error: '' @ e @ [10, 10] @ logBuffer s)))"
  by (auto simp: onError_def handler_defs split: option.splits)

lemma logBuffer_onError: "logBuffer (onError h r e s) = logBuffer s"
  by (auto simp: onError_def handler_defs split: option.splits)

lemma shown_onClose:
  "panel s \<noteq> None \<Longrightarrow> logBuffer s \<noteq> [] \<Longrightarrow>
   shown (onClose h r s) =
     Some (join [10] (rendered h r s (logBuffer s @ [10, 10] @ js ''--- Log stream ended ---'')))"
  by (auto simp: onClose_def handler_defs split: option.splits)

lemma logBuffer_onClose: "logBuffer (onClose h r s) = logBuffer s"
  by (auto simp: onClose_def handler_defs split: option.splits)

lemma rendered_onMessage: "rendered h r (onMessage h' r' c s) = rendered h r s"
  by (rule ext) (auto simp: onMessage_def handler_defs split: option.splits)

lemma example_session:
  "logBuffer exampleSession = [] \<and> timestampOn exampleSession = False
   \<and> runtimeConfig exampleSession = None \<and> panel exampleSession \<noteq> None"
  by (simp add: exampleSession_def session_defs)

lemma panel_onMessage: "panel s \<noteq> None \<Longrightarrow> panel (onMessage h r c s) \<noteq> None"
  by (auto simp: onMessage_def handler_defs split: option.splits)

lemma example_panel: "panel exampleSession \<noteq> None"
  using example_session by blast

section \<open>Examples of rendered lines\<close>

lemma line_fail:
  "updateContent_line plainHost False (js ''fail'') =
     logLineHtml (js ''      '') (LOG_STYLES Debug) [] (js ''fail'')"
  by (simp add: line_defs parse_defs char_defs re_defs group_defs plainHost_def)

lemma line_failed:
  "updateContent_line plainHost False (js ''failed'') =
     logLineHtml (js ''      '') (LOG_STYLES Error) [] (js ''failed'')"
  by (simp add: line_defs parse_defs char_defs re_defs group_defs plainHost_def)

lemma line_marker:
  "updateContent_line plainHost False (js ''--- Log stream ended ---'') =
     logLineHtml (js ''      '') (LOG_STYLES Debug) [] (js ''--- Log stream ended ---'')"
  by (simp add: line_defs parse_defs char_defs re_defs group_defs plainHost_def)

lemma line_connection_error:
  "updateContent_line plainHost False (js ''Connection error: ECONNRESET'') =
     logLineHtml (js ''      '') (LOG_STYLES Error) [] (js ''Connection error: ECONNRESET'')"
  by (simp add: line_defs parse_defs char_defs re_defs group_defs plainHost_def)

lemma line_new_line:
  "formatLogLine plainHost False (js ''new line'') =
     logLineHtml (js ''    '') (LOG_STYLES Debug) [] (js ''new line'')"
  by (simp add: line_defs parse_defs char_defs re_defs group_defs plainHost_def)

lemma line_old_line:
  "formatLogLine plainHost False (js ''old line'') =
     logLineHtml (js ''    '') (LOG_STYLES Debug) [] (js ''old line'')"
  by (simp add: line_defs parse_defs char_defs re_defs group_defs plainHost_def)


section \<open>What a match of the matcher consumes\<close>

lemma ends_suffix:
  "st' \<in> set (ends r st) \<Longrightarrow> \<exists>u. snd st = u @ snd st'"
proof (induction r st arbitrary: st' rule: ends.induct)
  case (1 P p s)
  then show ?case by (auto split: list.splits if_splits)
next
  case (2 st)
  then show ?case by simp
next
  case (3 a b st)
  from "3.prems" obtain m where m: "m \<in> set (ends a st)" and s: "st' \<in> set (ends b m)"
    by auto
  from "3.IH"(1) [OF m] obtain u where u: "snd st = u @ snd m" by blast
  from "3.IH"(2) [OF m s] obtain v where v: "snd m = v @ snd st'" by blast
  from u v have "snd st = (u @ v) @ snd st'" by simp
  then show ?case by blast
next
  case (4 a b st)
  from "4.prems" have "st' \<in> set (ends a st) \<or> st' \<in> set (ends b st)" by simp
  then show ?case using "4.IH" by blast
next
  case (5 a st)
  from "5.prems" consider (opt) "st' \<in> set (ends a st)" | (skip) "st' = st" by auto
  then show ?case
  proof cases
    case opt
    then show ?thesis by (rule "5.IH")
  next
    case skip
    then show ?thesis by simp
  qed
next
  case (6 a p s)
  from "6.prems" consider
      (step) m where "m \<in> set (ends a (p, s))" "length (snd m) < length s"
        "st' \<in> set (ends (Star a) m)"
    | (stop) "st' = (p, s)"
    by (subst (asm) ends.simps(6)) auto
  then show ?case
  proof cases
    case step
    from "6.IH"(1) [OF step(1)] obtain u where u: "s = u @ snd m" by auto
    from step(1,2) have "m \<in> set (filter (\<lambda>st'. length (snd st') < length s) (ends a (p, s)))"
      by simp
    from "6.IH"(2) [OF this step(3)] obtain v where v: "snd m = v @ snd st'" by blast
    from u v have "snd (p, s) = (u @ v) @ snd st'" by simp
    then show ?thesis by blast
  next
    case stop
    then show ?thesis by simp
  qed
next
  case (7 p s)
  then show ?case by (auto split: if_splits)
next
  case (8 p s)
  then show ?case by (auto split: if_splits)
next
  case (9 p s)
  then show ?case by (auto split: if_splits)
qed

lemma ends_Star_Cls_Nil: "ends (Star (Cls P)) (p, []) = [(p, [])]"
  by (subst ends.simps(6)) simp

lemma ends_Star_Cls_Cons:
  "ends (Star (Cls P)) (p, c # cs) =
     (if P c then ends (Star (Cls P)) (Some c, cs) else []) @ [(p, c # cs)]"
  by (subst ends.simps(6)) simp

lemma ends_Star_Cls:
  "st' \<in> set (ends (Star (Cls P)) (p, s)) \<Longrightarrow> \<exists>u. s = u @ snd st' \<and> list_all P u"
proof (induction s arbitrary: p)
  case Nil
  then show ?case by (simp add: ends_Star_Cls_Nil)
next
  case (Cons c cs)
  from Cons.prems consider
      (step) "P c" "st' \<in> set (ends (Star (Cls P)) (Some c, cs))"
    | (stop) "st' = (p, c # cs)"
    by (auto simp: ends_Star_Cls_Cons split: if_splits)
  then show ?case
  proof cases
    case step
    from Cons.IH [OF step(2)] obtain u where "cs = u @ snd st'" "list_all P u" by blast
    with step(1) have "c # cs = (c # u) @ snd st' \<and> list_all P (c # u)" by simp
    then show ?thesis by blast
  next
    case stop
    then have "c # cs = [] @ snd st' \<and> list_all P []" by simp
    then show ?thesis by blast
  qed
qed

lemma ends_Rep1_Cls:
  "st' \<in> set (ends (Rep1 (Cls P)) (p, s)) \<Longrightarrow> \<exists>u. s = u @ snd st' \<and> u \<noteq> [] \<and> list_all P u"
proof -
  assume a: "st' \<in> set (ends (Rep1 (Cls P)) (p, s))"
  then obtain c cs where s: "s = c # cs" and c: "P c"
    and r: "st' \<in> set (ends (Star (Cls P)) (Some c, cs))"
    by (auto simp: Rep1_def split: list.splits if_splits)
  from ends_Star_Cls [OF r] obtain u where "cs = u @ snd st'" "list_all P u" by blast
  with s c have "s = (c # u) @ snd st' \<and> c # u \<noteq> [] \<and> list_all P (c # u)" by simp
  then show ?thesis by blast
qed

lemma firstOf_Some:
  "firstOf rs sts = Some path \<Longrightarrow>
   \<exists>st rest. st \<in> set sts \<and> path = st # rest \<and> firstPath rs st = Some rest"
  by (induction sts) (auto split: option.splits)

lemma firstPath_Cons_Some:
  "firstPath (r # rs) st = Some path \<Longrightarrow>
   \<exists>st1 rest. st1 \<in> set (ends r st) \<and> path = st1 # rest \<and> firstPath rs st1 = Some rest"
  using firstOf_Some [of rs "ends r st" path] by simp

text \<open>
  A match of \<open>timestampRegex\<close> splits the line into the first group, white space that is
  not empty, and the second group, which has no line terminator and reaches the end.
\<close>

lemma timestampRegex_match_parts:
  assumes "timestampRegex_match line = Some (ts, m)"
  shows "\<exists>ws. line = ts @ ws @ m \<and> ws \<noteq> [] \<and> list_all isSpace ws
           \<and> list_all notLineTerminator m"
proof -
  let ?rs = "[Seq Bol timestampGroup, Rep1 space, Star dot, Eol]"
  from assms obtain path where path: "firstPath ?rs (None, line) = Some path"
    by (cases "firstPath ?rs (None, line)") (simp_all add: timestampRegex_match_def)
  from firstPath_Cons_Some [OF path] obtain st1 rest1
    where e1': "st1 \<in> set (ends (Seq Bol timestampGroup) (None, line))"
      and r1: "path = st1 # rest1"
      and path2: "firstPath [Rep1 space, Star dot, Eol] st1 = Some rest1"
    by blast
  from firstPath_Cons_Some [OF path2] obtain st2 rest2
    where e2': "st2 \<in> set (ends (Rep1 space) st1)"
      and r2: "rest1 = st2 # rest2"
      and path3: "firstPath [Star dot, Eol] st2 = Some rest2"
    by blast
  from firstPath_Cons_Some [OF path3] obtain st3 rest3
    where e3': "st3 \<in> set (ends (Star dot) st2)"
      and r3: "rest2 = st3 # rest3"
      and path4: "firstPath [Eol] st3 = Some rest3"
    by blast
  from firstPath_Cons_Some [OF path4] obtain st4 rest4
    where e4': "st4 \<in> set (ends Eol st3)"
      and r4: "rest3 = st4 # rest4"
      and path5: "firstPath [] st4 = Some rest4"
    by blast
  from path5 have r5: "rest4 = []" by simp
  obtain p1 s1 where st1: "st1 = (p1, s1)" by (cases st1)
  obtain p2 s2 where st2: "st2 = (p2, s2)" by (cases st2)
  obtain p3 s3 where st3: "st3 = (p3, s3)" by (cases st3)
  obtain p4 s4 where st4: "st4 = (p4, s4)" by (cases st4)
  from path r1 r2 r3 r4 r5 st1 st2 st3 st4
  have full: "firstPath ?rs (None, line) = Some [(p1, s1), (p2, s2), (p3, s3), (p4, s4)]"
    by simp
  from assms [unfolded timestampRegex_match_def full]
  have ts: "ts = take (length line - length s1) line"
    and m: "m = take (length s2 - length s3) s2"
    by simp_all
  from e1' st1 have e1: "(p1, s1) \<in> set (ends (Seq Bol timestampGroup) (None, line))" by simp
  from e2' st1 st2 have e2: "(p2, s2) \<in> set (ends (Rep1 space) (p1, s1))" by simp
  from e3' st2 st3 have e3: "(p3, s3) \<in> set (ends (Star dot) (p2, s2))" by simp
  from e4' st3 st4 have e4: "(p4, s4) \<in> set (ends Eol (p3, s3))" by simp
  from e4 have s3: "s3 = []" by (auto split: if_splits)
  from ends_suffix [OF e1] obtain u where u: "line = u @ s1" by auto
  from e2 obtain ws where ws: "s1 = ws @ s2" "ws \<noteq> []" "list_all isSpace ws"
    using ends_Rep1_Cls [of "(p2, s2)" isSpace p1 s1] by (auto simp: space_def)
  from e3 obtain v where v: "s2 = v @ s3" "list_all notLineTerminator v"
    using ends_Star_Cls [of "(p3, s3)" notLineTerminator p2 s2] by (auto simp: dot_def)
  from u ts have "ts = u" by simp
  moreover from v s3 m have "m = s2" "list_all notLineTerminator m" by simp_all
  ultimately have "line = ts @ ws @ m \<and> ws \<noteq> [] \<and> list_all isSpace ws
      \<and> list_all notLineTerminator m"
    using u ws by simp
  then show ?thesis by blast
qed

lemma length_trim: "length (trim s) \<le> length s"
proof -
  have "length (trim s) \<le> length (dropWhile isSpace s)"
    unfolding trim_def using length_dropWhile_le [of isSpace "rev (dropWhile isSpace s)"] by simp
  also have "\<dots> \<le> length s" by (rule length_dropWhile_le)
  finally show ?thesis .
qed

section \<open>The first match of the matcher\<close>

lemma ends_Seq_first:
  "ends a st = e1 # r1 \<Longrightarrow> ends b e1 = e2 # r2 \<Longrightarrow> \<exists>r. ends (Seq a b) st = e2 # r"
  by simp

lemma ends_Opt_first: "ends a st = e # r \<Longrightarrow> ends (Opt a) st = e # r @ [st]"
  by simp

lemma ends_Opt_none: "ends a st = [] \<Longrightarrow> ends (Opt a) st = [st]"
  by simp

lemma ends_Star_Cls_first:
  "list_all P u \<Longrightarrow> t = [] \<or> \<not> P (hd t) \<Longrightarrow>
   \<exists>r. ends (Star (Cls P)) (p, u @ t) = ((if u = [] then p else Some (last u)), t) # r"
proof (induction u arbitrary: p)
  case Nil
  then show ?case
    by (cases t) (simp_all add: ends_Star_Cls_Nil ends_Star_Cls_Cons)
next
  case (Cons c u)
  from Cons.prems have c: "P c" and u: "list_all P u" by simp_all
  from Cons.IH [OF u Cons.prems(2), of "Some c"] obtain r
    where "ends (Star (Cls P)) (Some c, u @ t) = ((if u = [] then Some c else Some (last u)), t) # r"
    by blast
  with c show ?case by (simp add: ends_Star_Cls_Cons)
qed

lemma ends_Rep1_Cls_first:
  "u \<noteq> [] \<Longrightarrow> list_all P u \<Longrightarrow> t = [] \<or> \<not> P (hd t) \<Longrightarrow>
   \<exists>r. ends (Rep1 (Cls P)) (p, u @ t) = (Some (last u), t) # r"
proof -
  assume a: "u \<noteq> []" "list_all P u" "t = [] \<or> \<not> P (hd t)"
  then obtain c u' where u: "u = c # u'" by (cases u) auto
  with a have "P c" "list_all P u'" by simp_all
  from ends_Star_Cls_first [OF this(2) a(3), of "Some c"] obtain r
    where "ends (Star (Cls P)) (Some c, u' @ t) = ((if u' = [] then Some c else Some (last u')), t) # r"
    by blast
  with \<open>P c\<close> u show ?thesis by (simp add: Rep1_def)
qed

lemma take_consumed: "take (length (a @ b) - length b) (a @ b) = a"
  by simp

lemma firstPath_first:
  "ends r st = e # rest \<Longrightarrow> firstPath rs e = Some path \<Longrightarrow>
   firstPath (r # rs) st = Some (e # path)"
  by simp

lemma isSpace_not_digit: "isSpace c \<Longrightarrow> \<not> isDigit c"
  by (auto simp: isSpace_def isDigit_def isLineTerminator_def)

lemma isDigit_code: "isDigit c \<Longrightarrow> c \<noteq> 32 \<and> c \<noteq> 85 \<and> c \<noteq> 46 \<and> c \<noteq> 90"
  by (auto simp: isDigit_def)

text \<open>The part \<open>YYYY-MM-DD(T| )HH:MM:SS\<close> of the pattern has one way to match.\<close>

lemma ends_timestamp_core:
  assumes "list_all isDigit [y1, y2, y3, y4, mo1, mo2, d1, d2, h1, h2, mi1, mi2, s1, s2]"
    and "sep = 84 \<or> sep = 32"
  shows "ends (Seq Bol timestampGroup)
           (None, [y1, y2, y3, y4, 45, mo1, mo2, 45, d1, d2, sep, h1, h2, 58, mi1, mi2, 58, s1, s2]
                  @ rest)
       = ends (Seq (Opt (Seq (lit (js ''.'')) (Rep1 digit)))
                   (Opt (Alt (lit (js ''Z'')) (lit (js '' UTC'')))))
           (Some s2, rest)"
  using assms by (auto simp: timestampGroup_def digit_def chr_def js_def)


lemma ends_lit_dot_none: "c \<noteq> 46 \<Longrightarrow> ends (lit (js ''.'')) (p, c # cs) = []"
  by (simp add: js_def chr_def)

lemma ends_lit_Z_none: "c \<noteq> 90 \<Longrightarrow> ends (lit (js ''Z'')) (p, c # cs) = []"
  by (simp add: js_def chr_def)

lemma ends_lit_UTC_none: "\<not> prefix (js '' UTC'') s \<Longrightarrow> ends (lit (js '' UTC'')) (p, s) = []"
  by (auto simp: js_def chr_def split: list.splits)

lemma isSpace_code: "isSpace c \<Longrightarrow> c \<noteq> 46 \<and> c \<noteq> 90"
  by (auto simp: isSpace_def isLineTerminator_def)

text \<open>The optional fraction, then the optional zone, taken as long as they can be.\<close>

lemma ends_fraction:
  assumes "list_all isDigit ds" and "t \<noteq> []" and "\<not> isDigit (hd t)" and "hd t \<noteq> 46"
  shows "\<exists>q r. ends (Opt (Seq (lit (js ''.'')) (Rep1 digit)))
                 (p, (if ds = [] then [] else 46 # ds) @ t) = (q, t) # r"
proof (cases "ds = []")
  case True
  from assms(2) obtain c cs where t: "t = c # cs" by (cases t) auto
  with assms(4) have "ends (lit (js ''.'')) (p, t) = []"
    by (simp add: ends_lit_dot_none)
  then have "ends (Seq (lit (js ''.'')) (Rep1 digit)) (p, t) = []"
    by simp
  from ends_Opt_none [OF this] True show ?thesis by (simp del: ends.simps)
next
  case False
  have d: "ends (lit (js ''.'')) (p, 46 # ds @ t) = [(Some 46, ds @ t)]"
    by (simp add: js_def chr_def)
  from assms(3) have "t = [] \<or> \<not> isDigit (hd t)" by simp
  from ends_Rep1_Cls_first [OF False assms(1) this, of "Some 46"] obtain r
    where "ends (Rep1 digit) (Some 46, ds @ t) = (Some (last ds), t) # r"
    by (auto simp: digit_def)
  with d have "ends (Seq (lit (js ''.'')) (Rep1 digit)) (p, 46 # ds @ t) = (Some (last ds), t) # r"
    by simp
  from ends_Opt_first [OF this] False show ?thesis by (simp del: ends.simps)
qed

lemma ends_zone_first:
  assumes "zone = [] \<or> zone = js ''Z'' \<or> zone = js '' UTC''"
    and "gap \<noteq> []" and "list_all isSpace gap"
    and "zone = [] \<longrightarrow> \<not> prefix (js '' UTC'') (gap @ m)"
  shows "\<exists>q r. ends (Opt (Alt (lit (js ''Z'')) (lit (js '' UTC'')))) (p, zone @ gap @ m)
           = (q, gap @ m) # r"
proof -
  from assms(2,3) obtain w gap' where w: "gap = w # gap'" "isSpace w"
    by (cases gap) auto
  from assms(1) consider (none) "zone = []" | (z) "zone = js ''Z''" | (utc) "zone = js '' UTC''"
    by blast
  then show ?thesis
  proof cases
    case none
    from w isSpace_code [of w] have "ends (lit (js ''Z'')) (p, gap @ m) = []"
      by (simp add: ends_lit_Z_none)
    moreover from none assms(4) have "ends (lit (js '' UTC'')) (p, gap @ m) = []"
      by (simp add: ends_lit_UTC_none)
    ultimately have "ends (Alt (lit (js ''Z'')) (lit (js '' UTC''))) (p, gap @ m) = []"
      by simp
    from ends_Opt_none [OF this] none show ?thesis by (simp del: ends.simps)
  next
    case z
    have "ends (Alt (lit (js ''Z'')) (lit (js '' UTC''))) (p, js ''Z'' @ gap @ m)
        = [(Some 90, gap @ m)]"
      by (simp add: js_def chr_def)
    from ends_Opt_first [OF this] z show ?thesis by (simp del: ends.simps)
  next
    case utc
    have "ends (Alt (lit (js ''Z'')) (lit (js '' UTC''))) (p, js '' UTC'' @ gap @ m)
        = [(Some 67, gap @ m)]"
      by (simp add: js_def chr_def)
    from ends_Opt_first [OF this] utc show ?thesis by (simp del: ends.simps)
  qed
qed

lemma hd_zone_gap:
  assumes "zone = [] \<or> zone = js ''Z'' \<or> zone = js '' UTC''"
    and "gap \<noteq> []" and "list_all isSpace gap"
  shows "zone @ gap @ m \<noteq> [] \<and> \<not> isDigit (hd (zone @ gap @ m)) \<and> hd (zone @ gap @ m) \<noteq> 46"
proof -
  from assms(2,3) obtain w gap' where w: "gap = w # gap'" "isSpace w"
    by (cases gap) auto
  from assms(1) w isSpace_not_digit [of w] isSpace_code [of w] show ?thesis
    by (auto simp: js_def isDigit_def)
qed

text \<open>
  A line that is a timestamp, white space and a message without line terminator matches
  \<open>timestampRegex\<close>, with the timestamp as the first group and the message from its first
  character that is not white space as the second.
\<close>

lemma timestampRegex_match_complete:
  assumes digits: "list_all isDigit [y1, y2, y3, y4, mo1, mo2, d1, d2, h1, h2, mi1, mi2, s1, s2]"
    and sep: "sep = 84 \<or> sep = 32"
    and frac: "list_all isDigit ds"
    and zone: "zone = [] \<or> zone = js ''Z'' \<or> zone = js '' UTC''"
    and gap: "gap \<noteq> []" "list_all isSpace gap"
    and m: "list_all notLineTerminator m"
    and longest: "zone = [] \<longrightarrow> \<not> prefix (js '' UTC'') (gap @ m)"
  shows "timestampRegex_match
           (([y1, y2, y3, y4, 45, mo1, mo2, 45, d1, d2, sep, h1, h2, 58, mi1, mi2, 58, s1, s2]
             @ (if ds = [] then [] else 46 # ds) @ zone) @ gap @ m)
       = Some ([y1, y2, y3, y4, 45, mo1, mo2, 45, d1, d2, sep, h1, h2, 58, mi1, mi2, 58, s1, s2]
                 @ (if ds = [] then [] else 46 # ds) @ zone,
               dropWhile isSpace m)"
proof -
  let ?core = "[y1, y2, y3, y4, 45, mo1, mo2, 45, d1, d2, sep, h1, h2, 58, mi1, mi2, 58, s1, s2]"
  let ?frac = "if ds = [] then [] else 46 # ds"
  let ?ts = "?core @ ?frac @ zone"
  let ?line = "?ts @ gap @ m"
  let ?m' = "dropWhile isSpace m"
  note nd = hd_zone_gap [OF zone gap, of m]
  from ends_fraction [OF frac, of "zone @ gap @ m" "Some s2"] nd obtain q1 r1
    where f: "ends (Opt (Seq (lit (js ''.'')) (Rep1 digit))) (Some s2, ?frac @ zone @ gap @ m)
        = (q1, zone @ gap @ m) # r1"
    by blast
  from ends_zone_first [OF zone gap longest, of q1] obtain q2 r2
    where s: "ends (Opt (Alt (lit (js ''Z'')) (lit (js '' UTC'')))) (q1, zone @ gap @ m)
        = (q2, gap @ m) # r2"
    by blast
  from ends_Seq_first [OF f s] obtain r3
    where "ends (Seq (Opt (Seq (lit (js ''.'')) (Rep1 digit)))
                     (Opt (Alt (lit (js ''Z'')) (lit (js '' UTC'')))))
             (Some s2, ?frac @ zone @ gap @ m) = (q2, gap @ m) # r3"
    by blast
  with ends_timestamp_core [OF digits sep, of "?frac @ zone @ gap @ m"]
  have e1: "ends (Seq Bol timestampGroup) (None, ?line) = (q2, gap @ m) # r3"
    by (simp del: ends.simps)
  have split_m: "gap @ m = (gap @ takeWhile isSpace m) @ ?m'"
    by simp
  have "list_all isSpace (gap @ takeWhile isSpace m)"
    using gap(2) by (auto simp: list_all_iff dest: set_takeWhileD)
  moreover have "gap @ takeWhile isSpace m \<noteq> []"
    using gap(1) by simp
  moreover have "?m' = [] \<or> \<not> isSpace (hd ?m')"
    using hd_dropWhile [of isSpace m] by blast
  ultimately obtain r4
    where "ends (Rep1 (Cls isSpace)) (q2, (gap @ takeWhile isSpace m) @ ?m')
        = (Some (last (gap @ takeWhile isSpace m)), ?m') # r4"
    using ends_Rep1_Cls_first [of "gap @ takeWhile isSpace m" isSpace ?m' q2] by blast
  then have e2: "ends (Rep1 space) (q2, gap @ m)
        = (Some (last (gap @ takeWhile isSpace m)), ?m') # r4"
    by (simp add: space_def del: ends.simps)
  let ?q3 = "Some (last (gap @ takeWhile isSpace m))"
  have "list_all notLineTerminator ?m'"
    using m by (auto simp: list_all_iff dest: set_dropWhileD)
  from ends_Star_Cls_first [OF this, of "[]" ?q3] obtain r5
    where e3: "ends (Star dot) (?q3, ?m') = ((if ?m' = [] then ?q3 else Some (last ?m')), []) # r5"
    by (auto simp: dot_def simp del: ends.simps)
  let ?q4 = "if ?m' = [] then ?q3 else Some (last ?m')"
  have e4: "ends Eol (?q4, []) = [(?q4, [])]"
    by simp
  have p4: "firstPath [Eol] (?q4, []) = Some [(?q4, [])]"
    by (rule firstPath_first [OF e4]) simp
  have p3: "firstPath [Star dot, Eol] (?q3, ?m') = Some [(?q4, []), (?q4, [])]"
    by (rule firstPath_first [OF e3 p4])
  have p2: "firstPath [Rep1 space, Star dot, Eol] (q2, gap @ m)
      = Some [(?q3, ?m'), (?q4, []), (?q4, [])]"
    by (rule firstPath_first [OF e2 p3])
  have p1: "firstPath [Seq Bol timestampGroup, Rep1 space, Star dot, Eol] (None, ?line)
      = Some [(q2, gap @ m), (?q3, ?m'), (?q4, []), (?q4, [])]"
    by (rule firstPath_first [OF e1 p2])
  show ?thesis
    unfolding timestampRegex_match_def p1
    by (simp only: option.case list.case prod.case take_consumed list.size diff_zero take_all
        order_refl)
qed

section \<open>The timestamp given to the Date constructor\<close>

lemma replace_absent: "c \<in> set pat \<Longrightarrow> c \<notin> set s \<Longrightarrow> replace pat rep s = s"
proof (induction s)
  case Nil
  then show ?case by auto
next
  case (Cons x xs)
  from Cons.prems have "\<not> prefix pat (x # xs)"
    using set_mono_prefix [of pat "x # xs"] by blast
  with Cons show ?case by simp
qed

lemma replace_UTC_suffix:
  "85 \<notin> set core \<Longrightarrow> replace (js '' UTC'') (js ''Z'') (core @ js '' UTC'') = core @ js ''Z''"
proof (induction core)
  case Nil
  show ?case by (simp add: js_def)
next
  case (Cons x xs)
  have "\<not> prefix (js '' UTC'') (x # xs @ js '' UTC'')"
  proof (cases xs)
    case Nil
    then show ?thesis by (simp add: js_def)
  next
    case (Cons y ys)
    with Cons.prems show ?thesis by (auto simp: js_def)
  qed
  with Cons show ?case by simp
qed

lemma isoTimestamp_UTC:
  "85 \<notin> set core \<Longrightarrow> isoTimestamp (core @ js '' UTC'') = isoTimestamp (core @ js ''Z'')"
proof -
  assume a: "85 \<notin> set core"
  have "85 \<in> set (js '' UTC'')" by (simp add: js_def)
  moreover have "85 \<notin> set (core @ js ''Z'')" using a by (simp add: js_def)
  ultimately have "replace (js '' UTC'') (js ''Z'') (core @ js ''Z'') = core @ js ''Z''"
    by (rule replace_absent)
  with replace_UTC_suffix [OF a] show ?thesis by (simp add: isoTimestamp_def)
qed

lemma trim_dropWhile: "trim (dropWhile isSpace m) = trim m"
  by (simp add: trim_def)

lemma isDigit_not_space: "isDigit c \<Longrightarrow> c \<noteq> 32"
  by (simp add: isDigit_def)

lemma no_U_in_timestamp:
  assumes "list_all isDigit [y1, y2, y3, y4, mo1, mo2, d1, d2, h1, h2, mi1, mi2, s1, s2]"
    and "sep = 84 \<or> sep = 32" and "list_all isDigit ds"
  shows "85 \<notin> set ([y1, y2, y3, y4, 45, mo1, mo2, 45, d1, d2, sep, h1, h2, 58, mi1, mi2, 58, s1, s2]
                     @ (if ds = [] then [] else 46 # ds))"
  using assms by (auto simp: isDigit_def list_all_iff)

lemma replace_space_timestamp:
  assumes "list_all isDigit [y1, y2, y3, y4, mo1, mo2, d1, d2, h1, h2, mi1, mi2, s1, s2]"
    and "sep = 84 \<or> sep = 32" and "32 \<notin> set rest"
  shows "replace (js '' '') (js ''T'')
           ([y1, y2, y3, y4, 45, mo1, mo2, 45, d1, d2, sep, h1, h2, 58, mi1, mi2, 58, s1, s2] @ rest)
       = [y1, y2, y3, y4, 45, mo1, mo2, 45, d1, d2, 84, h1, h2, 58, mi1, mi2, 58, s1, s2] @ rest"
proof -
  have r: "replace (js '' '') (js ''T'') rest = rest"
    by (rule replace_absent [of 32]) (simp_all add: js_def assms(3))
  from assms(1) have "y1 \<noteq> 32" "y2 \<noteq> 32" "y3 \<noteq> 32" "y4 \<noteq> 32" "mo1 \<noteq> 32" "mo2 \<noteq> 32"
    "d1 \<noteq> 32" "d2 \<noteq> 32" "h1 \<noteq> 32" "h2 \<noteq> 32" "mi1 \<noteq> 32" "mi2 \<noteq> 32" "s1 \<noteq> 32" "s2 \<noteq> 32"
    by (simp_all add: isDigit_not_space)
  with assms(2) r show ?thesis
    by (auto simp: js_def)
qed

lemma isoTimestamp_timestamp:
  assumes digits: "list_all isDigit [y1, y2, y3, y4, mo1, mo2, d1, d2, h1, h2, mi1, mi2, s1, s2]"
    and sep: "sep = 84 \<or> sep = 32" and frac: "list_all isDigit ds"
    and zone: "zone = [] \<or> zone = js ''Z'' \<or> zone = js '' UTC''"
  shows "isoTimestamp
           ([y1, y2, y3, y4, 45, mo1, mo2, 45, d1, d2, sep, h1, h2, 58, mi1, mi2, 58, s1, s2]
            @ (if ds = [] then [] else 46 # ds) @ zone)
       = [y1, y2, y3, y4, 45, mo1, mo2, 45, d1, d2, 84, h1, h2, 58, mi1, mi2, 58, s1, s2]
         @ (if ds = [] then [] else 46 # ds) @ (if zone = [] then [] else js ''Z'')"
proof -
  let ?core = "[y1, y2, y3, y4, 45, mo1, mo2, 45, d1, d2, sep, h1, h2, 58, mi1, mi2, 58, s1, s2]"
  let ?frac = "if ds = [] then [] else 46 # ds"
  let ?z = "if zone = [] then [] else js ''Z''"
  note u = no_U_in_timestamp [OF digits sep frac]
  have a: "replace (js '' UTC'') (js ''Z'') (?core @ ?frac @ zone) = ?core @ ?frac @ ?z"
  proof (cases "zone = js '' UTC''")
    case True
    from replace_UTC_suffix [OF u] True show ?thesis
      by (simp add: js_def)
  next
    case False
    with zone have z: "zone = [] \<or> zone = js ''Z''" by blast
    then have "85 \<notin> set ((?core @ ?frac) @ zone)"
      using u by (auto simp: js_def)
    moreover have "85 \<in> set (js '' UTC'')" by (simp add: js_def)
    ultimately have "replace (js '' UTC'') (js ''Z'') ((?core @ ?frac) @ zone) = (?core @ ?frac) @ zone"
      by (rule replace_absent [rotated])
    with z show ?thesis by auto
  qed
  have "32 \<notin> set (?frac @ ?z)"
    using frac by (auto simp: js_def list_all_iff isDigit_def)
  from replace_space_timestamp [OF digits sep this] a show ?thesis
    by (simp add: isoTimestamp_def)
qed

lemma readUnsignedNumeral_Nil: "readUnsignedNumeral [] = 0"
  by (simp add: readUnsignedNumeral_def)

lemma readFraction_digits:
  assumes "list_all isDigit ds" and "z = [] \<or> z = js ''Z''"
  shows "readFraction ((if ds = [] then [] else 46 # ds) @ z)
       = Some ((readUnsignedNumeral ds, length ds), z)"
proof (cases "ds = []")
  case True
  with assms(2) show ?thesis
    by (auto simp: readFraction_def readUnsignedNumeral_Nil js_def)
next
  case False
  from assms(1) have d: "\<And>x. x \<in> set ds \<Longrightarrow> isDigit x"
    by (simp add: list_all_iff)
  from assms(2) have z: "takeWhile isDigit z = []" "dropWhile isDigit z = z"
    by (auto simp: js_def isDigit_def)
  from False d z show ?thesis
    by (simp add: readFraction_def takeWhile_append2 dropWhile_append2)
qed

lemma parseDateTime_timestamp:
  assumes "list_all isDigit [y1, y2, y3, y4, mo1, mo2, d1, d2, h1, h2, mi1, mi2, s1, s2]"
    and "list_all isDigit ds" and "z = [] \<or> z = js ''Z''"
  shows "parseDateTime
           ([y1, y2, y3, y4, 45, mo1, mo2, 45, d1, d2, 84, h1, h2, 58, mi1, mi2, 58, s1, s2]
            @ (if ds = [] then [] else 46 # ds) @ z)
       = Some \<lparr>year = 100 * (10 * digitValue y1 + digitValue y2)
                        + (10 * digitValue y3 + digitValue y4),
               month = 10 * digitValue mo1 + digitValue mo2,
               day = 10 * digitValue d1 + digitValue d2,
               hours = 10 * digitValue h1 + digitValue h2,
               minutes = 10 * digitValue mi1 + digitValue mi2,
               seconds = 10 * digitValue s1 + digitValue s2,
               fractionNumber = readUnsignedNumeral ds, fractionLength = length ds,
               utc = (z \<noteq> [])\<rparr>"
proof -
  have "readZone z = Some (z \<noteq> [])"
    using assms(3) by (auto simp: readZone_def js_def)
  with assms(1) readFraction_digits [OF assms(2,3)] show ?thesis
    by (simp add: parseDateTime_def readDigits4_def readDigits2_def skipSymbol_def
        del: append_assoc)
qed


section \<open>The parse of a timestamped line\<close>

lemma parseLogLine_match:
  "timestampRegex_match line = Some (ts, m) \<Longrightarrow>
   parseLogLine h line = \<lparr>timestamp = newDate h (isoTimestamp ts), message = trim m\<rparr>"
  by (simp add: parseLogLine_def)

lemma parseLogLine_timestamped:
  assumes "list_all isDigit [y1, y2, y3, y4, mo1, mo2, d1, d2, h1, h2, mi1, mi2, s1, s2]"
    and "sep = 84 \<or> sep = 32"
    and "list_all isDigit ds"
    and "zone = [] \<or> zone = js ''Z'' \<or> zone = js '' UTC''"
    and "gap \<noteq> []" and "list_all isSpace gap"
    and "list_all notLineTerminator m"
    and "zone = [] \<longrightarrow> \<not> prefix (js '' UTC'') (gap @ m)"
  shows "parseLogLine h
           (([y1, y2, y3, y4, 45, mo1, mo2, 45, d1, d2, sep, h1, h2, 58, mi1, mi2, 58, s1, s2]
             @ (if ds = [] then [] else 46 # ds) @ zone) @ gap @ m)
       = \<lparr>timestamp =
            timeValue h
              \<lparr>year = 100 * (10 * digitValue y1 + digitValue y2)
                       + (10 * digitValue y3 + digitValue y4),
               month = 10 * digitValue mo1 + digitValue mo2,
               day = 10 * digitValue d1 + digitValue d2,
               hours = 10 * digitValue h1 + digitValue h2,
               minutes = 10 * digitValue mi1 + digitValue mi2,
               seconds = 10 * digitValue s1 + digitValue s2,
               fractionNumber = readUnsignedNumeral ds, fractionLength = length ds,
               utc = (zone \<noteq> [])\<rparr>,
          message = trim m\<rparr>"
proof -
  let ?z = "if zone = [] then [] else js ''Z''"
  have z: "?z = [] \<or> ?z = js ''Z''" by simp
  have zu: "(?z \<noteq> []) = (zone \<noteq> [])" by (simp add: js_def)
  note mt = timestampRegex_match_complete [OF assms]
  note iso = isoTimestamp_timestamp [OF assms(1,2,3,4)]
  note pd = parseDateTime_timestamp [OF assms(1,3) z]
  show ?thesis
    unfolding parseLogLine_match [OF mt] iso newDate_def pd zu
    by (simp add: trim_dropWhile)
qed

lemma timeValue_invalid: "\<not> validDateTime d \<Longrightarrow> timeValue h d = None"
  by (simp add: timeValue_def)


section \<open>Examples of parsed and classified lines\<close>

lemma match_invalid_date:
  "timestampRegex_match (js ''2024-13-45 10:00:00 hello'')
     = Some (js ''2024-13-45 10:00:00'', js ''hello'')"
  by (simp add: parse_defs char_defs re_defs)

lemma newDate_invalid_date:
  "newDate plainHost (isoTimestamp (js ''2024-13-45 10:00:00'')) = None"
  by (simp add: date_defs char_defs)

lemma match_listening:
  "timestampRegex_match (js ''2024-01-05T10:00:00Z Listening on port 3000'')
     = Some (js ''2024-01-05T10:00:00Z'', js ''Listening on port 3000'')"
  by (simp add: parse_defs char_defs re_defs)

lemma match_listening_UTC:
  "timestampRegex_match (js ''2024-01-05 10:00:00 UTC   Listening on port 3000  '')
     = Some (js ''2024-01-05 10:00:00 UTC'', js ''Listening on port 3000  '')"
  by (simp add: parse_defs char_defs re_defs)

lemma newDate_listening:
  "newDate plainHost (isoTimestamp (js ''2024-01-05T10:00:00Z'')) = Some 1704448800000"
  by (simp add: date_defs char_defs plainHost_def)

text \<open>
  The fraction as V8 reads it, the hour 24, and a day beyond the end of its month.
\<close>

lemma newDate_long_fraction:
  "newDate plainHost (js ''2024-01-05T10:00:00.0123456789Z'') = Some 1704448800123"
  by (simp add: date_defs char_defs plainHost_def)

lemma newDate_short_fraction:
  "newDate plainHost (js ''2024-01-05T10:00:00.5Z'') = Some 1704448800500"
  by (simp add: date_defs char_defs plainHost_def)

lemma newDate_hour_24:
  "newDate plainHost (js ''2024-01-05T24:00:00.000Z'') = Some 1704499200000"
  by (simp add: date_defs char_defs plainHost_def)

lemma newDate_hour_24_fraction:
  "newDate plainHost (js ''2024-01-05T24:00:00.0004Z'') = None"
  by (simp add: date_defs char_defs plainHost_def)

lemma newDate_day_rolls_over:
  "newDate plainHost (js ''2024-02-30T10:00:00Z'') = Some 1709287200000
   \<and> newDate plainHost (js ''2024-03-01T10:00:00Z'') = Some 1709287200000"
  by (simp add: date_defs char_defs plainHost_def)

lemma trim_hello: "trim (js ''hello'') = js ''hello''"
  by (simp add: trim_def char_defs)

lemma trim_listening: "trim (js ''Listening on port 3000  '') = js ''Listening on port 3000''"
  by (simp add: trim_def char_defs)

lemma test_member: "r \<in> set g \<Longrightarrow> test r (toLowerCase h msg) \<Longrightarrow> groupMatches h g msg"
  by (auto simp: groupMatches_def)

lemma example_error:
  "test errorWord
     (toLowerCase plainHost (js ''Build failed: deployment was not completed successfully''))"
  by (simp add: errorWord_def plainHost_def asciiToLowerCase_def char_defs re_defs)

lemma example_success:
  "test successWord
     (toLowerCase plainHost (js ''Build failed: deployment was not completed successfully''))"
  by (simp add: successWord_def plainHost_def asciiToLowerCase_def char_defs re_defs)


lemma match_carriage_return:
  "timestampRegex_match (js ''2024-01-05T10:00:00Z hello'' @ [13]) = None"
  by (simp add: parse_defs char_defs re_defs)

lemma trim_carriage_return: "trim (js ''hello'' @ [13]) = js ''hello''"
  by (simp add: trim_def char_defs)


section \<open>The timestamp flag\<close>

lemma timestampOn_closeWebSocket [simp]: "timestampOn (closeWebSocket s) = timestampOn s"
  by (simp add: closeWebSocket_def split: option.splits)

lemma timestampOn_onDidDispose [simp]: "timestampOn (onDidDispose s) = timestampOn s"
  by (simp add: onDidDispose_def)

lemma timestampOn_createOrRevealPanel [simp]:
  "timestampOn (createOrRevealPanel t s) = timestampOn s"
  by (simp add: createOrRevealPanel_def split: option.splits)

lemma timestampOn_setupMessageHandler [simp]:
  "timestampOn (setupMessageHandler s) = timestampOn s"
  by (simp add: setupMessageHandler_def split: option.splits)

lemma timestampOn_connectWebSocket [simp]:
  "timestampOn (connectWebSocket u hs r s) = timestampOn s"
  by (simp add: connectWebSocket_def)

lemma timestampOn_updateContent [simp]: "timestampOn (updateContent h c s) = timestampOn s"
  by (simp add: updateContent_def Let_def split: option.splits)

lemma timestampOn_updateRuntimeContent [simp]:
  "timestampOn (updateRuntimeContent h c cs sel t s) = timestampOn s"
  by (simp add: updateRuntimeContent_def Let_def split: option.splits)

lemma timestampOn_onOpen [simp]: "timestampOn (onOpen h r s) = timestampOn s"
  by (simp add: onOpen_def Let_def split: option.splits)

lemma timestampOn_onMessage [simp]: "timestampOn (onMessage h r c s) = timestampOn s"
  by (simp add: onMessage_def Let_def split: option.splits)

lemma timestampOn_onError [simp]: "timestampOn (onError h r e s) = timestampOn s"
  by (simp add: onError_def Let_def split: option.splits)

lemma timestampOn_onClose [simp]: "timestampOn (onClose h r s) = timestampOn s"
  by (simp add: onClose_def Let_def split: option.splits)

lemma timestampOn_connectToRuntimeLogs [simp]:
  "timestampOn (connectToRuntimeLogs h s) = timestampOn s"
  by (simp add: connectToRuntimeLogs_def Let_def split: option.splits)

lemma timestampOn_showEmptyState [simp]: "timestampOn (showEmptyState n s) = timestampOn s"
  by (simp add: showEmptyState_def Let_def split: option.splits)

lemma timestampOn_showRuntimeLogs [simp]:
  "timestampOn (showRuntimeLogs h a c cs s) = timestampOn s"
  by (simp add: showRuntimeLogs_def Let_def split: list.splits)

lemma timestampOn_showWithWebSocket [simp]:
  "timestampOn (showWithWebSocket h t u hs s) = timestampOn s"
  by (simp add: showWithWebSocket_def Let_def)

lemma timestampOn_handleMessage [simp]: "timestampOn (handleMessage h m cs s) = timestampOn s"
  by (simp add: handleMessage_def split: option.splits command.splits list.splits)

lemma timestampOn_funpow:
  fixes f :: "logsWebview \<Rightarrow> logsWebview"
  shows "(\<And>x. timestampOn (f x) = timestampOn x) \<Longrightarrow> timestampOn ((f ^^ n) s) = timestampOn s"
  by (induction n) simp_all

lemma timestampOn_didReceiveMessage [simp]:
  "timestampOn (didReceiveMessage h m cs s) = timestampOn s"
  by (simp add: didReceiveMessage_def timestampOn_funpow split: option.splits)

lemma timestampOn_dispose [simp]: "timestampOn (dispose s) = timestampOn s"
  by (simp add: dispose_def Let_def split: option.splits)

lemma timestampOn_step: "timestampOn (step h s e) = timestampOn s"
  by (cases e) (simp_all split: option.splits)

lemma timestampOn_run: "timestampOn (run h s es) = timestampOn s"
  unfolding run_def by (induction es arbitrary: s) (simp_all add: timestampOn_step)

lemma renderedLine_off:
  "timestampOn s = False \<Longrightarrow>
   renderedLine h r s line =
     (if trim line = [] then emptyLineHtml
      else logLineHtml (if r \<and> runtimeConfig s \<noteq> None then js ''    '' else js ''      '')
             (getLogType h (message (parseLogLine h line))) []
             (ansiToHtml h (escapeHtml (message (parseLogLine h line)))))"
  by (auto simp: renderedLine_def formatLogLine_def updateContent_line_def Let_def
      split: option.splits)

lemma line_listening:
  "updateContent_line plainHost False (js ''2024-01-05T10:00:00Z Listening on port 3000'') =
     logLineHtml (js ''      '') (LOG_STYLES Success) [] (js ''Listening on port 3000'')"
  by (simp add: line_defs parse_defs char_defs re_defs group_defs plainHost_def)

lemma timestamp_listening:
  "timestamp (parseLogLine plainHost (js ''2024-01-05T10:00:00Z Listening on port 3000''))
     = Some 1704448800000"
  using parseLogLine_match [OF match_listening, of plainHost] by (simp add: newDate_listening)


section \<open>Replacing the session\<close>

lemma funpow_fixed:
  fixes f :: "logsWebview \<Rightarrow> logsWebview"
  shows "f s = s \<Longrightarrow> (f ^^ n) s = s"
  by (induction n) simp_all

lemma connectToRuntimeLogs_Some:
  "runtimeConfig s = Some cfg \<Longrightarrow> panel s = Some p \<Longrightarrow>
   connectToRuntimeLogs h s =
     s\<lparr>logBuffer := [],
       panel := Some (p\<lparr>html := RuntimeHtml
                  (join [10] (map (formatLogLine h (timestampOn s))
                     (split 10 (js ''Connecting to log stream...''))))
                  (containers cfg) (selectedContainerId cfg) (tail cfg)\<rparr>),
       ws := Some \<lparr>wsUrl = url (getRuntimeLogWsConfig (client cfg) (selectedContainerId cfg)
                                 (tail cfg) (serverId (app cfg))),
                   wsHeaders = Some (headers (getRuntimeLogWsConfig (client cfg)
                                 (selectedContainerId cfg) (tail cfg) (serverId (app cfg)))),
                   wsRuntime = True\<rparr>,
       closedSockets := closedSockets s @ (case ws s of None \<Rightarrow> [] | Some w \<Rightarrow> [w])\<rparr>"
  by (simp add: connectToRuntimeLogs_def updateRuntimeContent_def connectWebSocket_def
      closeWebSocket_def Let_def split: option.splits)

text \<open>
  The reconfigured configuration of a message that replaces the session, and the handler
  in that case.
\<close>

lemma handleMessage_replaces:
  assumes "runtimeConfig s = Some cfg" and "replacesSession m cs"
  shows "\<exists>cfg'. \<forall>b. handleMessage h m cs (s\<lparr>logBuffer := b\<rparr>)
            = connectToRuntimeLogs h (s\<lparr>logBuffer := b, runtimeConfig := Some cfg'\<rparr>)"
proof (cases "command m")
  case ChangeContainer
  with assms(2) obtain cid where "msgContainerId m = Some cid" "cid \<noteq> []"
    by (auto simp: replacesSession_def truthyString_def split: option.splits)
  with assms(1) ChangeContainer show ?thesis
    by (simp add: handleMessage_def) blast
next
  case ChangeTail
  with assms(2) obtain t where "msgTail m = Some t" "truthyNumber (Some t)"
    by (cases "msgTail m") (auto simp: replacesSession_def truthyNumber_def)
  with assms(1) ChangeTail show ?thesis
    by (simp add: handleMessage_def) blast
next
  case Refresh
  with assms(2) obtain c0 cs' where "cs = c0 # cs'"
    by (cases cs) (auto simp: replacesSession_def)
  with assms(1) Refresh show ?thesis
    by (simp add: handleMessage_def) blast
qed

lemma handleMessage_replaces_facts:
  assumes "runtimeConfig s = Some cfg" and "panel s = Some p" and "replacesSession m cs"
  shows "logBuffer (handleMessage h m cs s) = []"
    and "runtimeConfig (handleMessage h m cs s) \<noteq> None"
    and "panel (handleMessage h m cs s) \<noteq> None"
    and "shown (handleMessage h m cs s)
          = Some (join [10] (map (formatLogLine h (timestampOn s))
                     (split 10 (js ''Connecting to log stream...''))))"
    and "handleMessage h m cs (s\<lparr>logBuffer := b\<rparr>) = handleMessage h m cs s"
proof -
  from handleMessage_replaces [OF assms(1,3), of h] obtain cfg'
    where a: "\<And>b. handleMessage h m cs (s\<lparr>logBuffer := b\<rparr>)
            = connectToRuntimeLogs h (s\<lparr>logBuffer := b, runtimeConfig := Some cfg'\<rparr>)"
    by blast
  have e: "connectToRuntimeLogs h (s\<lparr>logBuffer := b, runtimeConfig := Some cfg'\<rparr>)
      = connectToRuntimeLogs h (s\<lparr>runtimeConfig := Some cfg'\<rparr>)" for b
    using assms(2) by (simp add: connectToRuntimeLogs_Some [where cfg = cfg' and p = p])
  have a': "handleMessage h m cs s = connectToRuntimeLogs h (s\<lparr>runtimeConfig := Some cfg'\<rparr>)"
    using a [of "logBuffer s"] e [of "logBuffer s"] by simp
  have c: "runtimeConfig (s\<lparr>runtimeConfig := Some cfg'\<rparr>) = Some cfg'"
    and p: "panel (s\<lparr>runtimeConfig := Some cfg'\<rparr>) = Some p"
    using assms(2) by simp_all
  note f = connectToRuntimeLogs_Some [OF c p, of h]
  show "logBuffer (handleMessage h m cs s) = []"
    by (simp add: a' f)
  show "runtimeConfig (handleMessage h m cs s) \<noteq> None"
    by (simp add: a' f)
  show "panel (handleMessage h m cs s) \<noteq> None"
    by (simp add: a' f)
  show "shown (handleMessage h m cs s)
          = Some (join [10] (map (formatLogLine h (timestampOn s))
                     (split 10 (js ''Connecting to log stream...''))))"
    by (simp add: a' f shown_def)
  show "handleMessage h m cs (s\<lparr>logBuffer := b\<rparr>) = handleMessage h m cs s"
    by (simp only: a a' e)
qed

lemma funpow_replaces:
  fixes s :: logsWebview
  assumes "runtimeConfig s \<noteq> None" and "panel s \<noteq> None" and "replacesSession m cs"
  shows "runtimeConfig ((handleMessage h m cs ^^ n) s) \<noteq> None
       \<and> panel ((handleMessage h m cs ^^ n) s) \<noteq> None
       \<and> timestampOn ((handleMessage h m cs ^^ n) s) = timestampOn s"
proof (induction n)
  case 0
  from assms show ?case by simp
next
  case (Suc n)
  let ?t = "(handleMessage h m cs ^^ n) s"
  from Suc obtain cfg p where "runtimeConfig ?t = Some cfg" "panel ?t = Some p" by auto
  from handleMessage_replaces_facts(2,3) [OF this assms(3), where h = h] Suc
  show ?case by simp
qed

lemma didReceiveMessage_replaces:
  assumes "runtimeConfig s \<noteq> None" and "panel s = Some p" and "0 < messageHandlers p"
    and "replacesSession m cs"
  shows "logBuffer (didReceiveMessage h m cs s) = []"
    and "runtimeConfig (didReceiveMessage h m cs s) \<noteq> None"
    and "panel (didReceiveMessage h m cs s) \<noteq> None"
    and "shown (didReceiveMessage h m cs s)
          = Some (join [10] (rendered h True (didReceiveMessage h m cs s)
                     (js ''Connecting to log stream...'')))"
    and "didReceiveMessage h m cs (s\<lparr>logBuffer := b\<rparr>) = didReceiveMessage h m cs s"
proof -
  from assms(3) obtain n where n: "messageHandlers p = Suc n"
    by (cases "messageHandlers p") auto
  let ?f = "handleMessage h m cs"
  let ?t = "(?f ^^ n) s"
  have d: "didReceiveMessage h m cs s = ?f ?t"
    by (simp add: didReceiveMessage_def assms(2) n)
  from assms(2) have pn: "panel s \<noteq> None" by simp
  note inv = funpow_replaces [OF assms(1) pn assms(4), where h = h and n = n]
  from inv obtain cfg q where c: "runtimeConfig ?t = Some cfg" and q: "panel ?t = Some q"
    by auto
  note f = handleMessage_replaces_facts [OF c q assms(4), where h = h]
  show "logBuffer (didReceiveMessage h m cs s) = []"
    by (simp add: d f(1))
  show rc: "runtimeConfig (didReceiveMessage h m cs s) \<noteq> None"
    using f(2) by (simp add: d)
  show "panel (didReceiveMessage h m cs s) \<noteq> None"
    using f(3) by (simp add: d)
  have "timestampOn (didReceiveMessage h m cs s) = timestampOn ?t"
    by simp (simp add: inv)
  with rc show "shown (didReceiveMessage h m cs s)
          = Some (join [10] (rendered h True (didReceiveMessage h m cs s)
                     (js ''Connecting to log stream...'')))"
    by (simp add: d f(4) rendered_def renderedLine_fun)
  from assms(1) obtain cfg0 where c0: "runtimeConfig s = Some cfg0" by auto
  have "?f (s\<lparr>logBuffer := b\<rparr>) = ?f s"
    by (rule handleMessage_replaces_facts(5) [OF c0 assms(2,4)])
  then have "(?f ^^ Suc n) (s\<lparr>logBuffer := b\<rparr>) = (?f ^^ Suc n) s"
    by (simp only: funpow_Suc_right o_apply)
  then show "didReceiveMessage h m cs (s\<lparr>logBuffer := b\<rparr>) = didReceiveMessage h m cs s"
    by (simp add: didReceiveMessage_def assms(2) n)
qed

text \<open>A change of tail with a number that counts as true.\<close>

lemma truthyNumber_Some: "truthyNumber (Some t) = (t \<noteq> NaN \<and> t \<noteq> Finite 0)"
  by (cases t) (auto simp: truthyNumber_def)

lemma handleMessage_changeTail:
  assumes "command m = ChangeTail" and "msgTail m = Some t" and "truthyNumber (Some t)"
    and "runtimeConfig s = Some cfg" and "panel s = Some p"
  shows "runtimeConfig (handleMessage h m cs s) = Some (cfg\<lparr>tail := t\<rparr>)"
    and "panel (handleMessage h m cs s) \<noteq> None"
    and "ws (handleMessage h m cs s)
          = Some \<lparr>wsUrl = url (getRuntimeLogWsConfig (client cfg) (selectedContainerId cfg) t
                                 (serverId (app cfg))),
                  wsHeaders = Some (headers (getRuntimeLogWsConfig (client cfg)
                                 (selectedContainerId cfg) t (serverId (app cfg)))),
                  wsRuntime = True\<rparr>"
    and "closedSockets (handleMessage h m cs s)
          = closedSockets s @ (case ws s of None \<Rightarrow> [] | Some w \<Rightarrow> [w])"
proof -
  let ?t = "s\<lparr>runtimeConfig := Some (cfg\<lparr>tail := t\<rparr>)\<rparr>"
  have a: "handleMessage h m cs s = connectToRuntimeLogs h ?t"
    using assms(1-4) by (simp add: handleMessage_def)
  have c: "runtimeConfig ?t = Some (cfg\<lparr>tail := t\<rparr>)" and p: "panel ?t = Some p"
    using assms(5) by simp_all
  note f = connectToRuntimeLogs_Some [OF c p, of h]
  show "runtimeConfig (handleMessage h m cs s) = Some (cfg\<lparr>tail := t\<rparr>)"
    by (simp add: a f)
  show "panel (handleMessage h m cs s) \<noteq> None"
    by (simp add: a f)
  show "ws (handleMessage h m cs s)
          = Some \<lparr>wsUrl = url (getRuntimeLogWsConfig (client cfg) (selectedContainerId cfg) t
                                 (serverId (app cfg))),
                  wsHeaders = Some (headers (getRuntimeLogWsConfig (client cfg)
                                 (selectedContainerId cfg) t (serverId (app cfg)))),
                  wsRuntime = True\<rparr>"
    by (simp add: a f)
  show "closedSockets (handleMessage h m cs s)
          = closedSockets s @ (case ws s of None \<Rightarrow> [] | Some w \<Rightarrow> [w])"
    by (simp add: a f)
qed

lemma funpow_changeTail:
  fixes s :: logsWebview
  assumes "command m = ChangeTail" and "msgTail m = Some t" and "truthyNumber (Some t)"
    and "runtimeConfig s = Some cfg" and "panel s = Some p"
  shows "runtimeConfig ((handleMessage h m cs ^^ Suc n) s) = Some (cfg\<lparr>tail := t\<rparr>)
       \<and> panel ((handleMessage h m cs ^^ Suc n) s) \<noteq> None
       \<and> ws ((handleMessage h m cs ^^ Suc n) s)
          = Some \<lparr>wsUrl = url (getRuntimeLogWsConfig (client cfg) (selectedContainerId cfg) t
                                 (serverId (app cfg))),
                  wsHeaders = Some (headers (getRuntimeLogWsConfig (client cfg)
                                 (selectedContainerId cfg) t (serverId (app cfg)))),
                  wsRuntime = True\<rparr>
       \<and> prefix (closedSockets s @ (case ws s of None \<Rightarrow> [] | Some w \<Rightarrow> [w]))
           (closedSockets ((handleMessage h m cs ^^ Suc n) s))"
proof (induction n)
  case 0
  from handleMessage_changeTail [OF assms, where h = h and cs = cs] show ?case
    by simp
next
  case (Suc n)
  let ?u = "(handleMessage h m cs ^^ Suc n) s"
  from Suc obtain q where c: "runtimeConfig ?u = Some (cfg\<lparr>tail := t\<rparr>)"
    and q: "panel ?u = Some q"
    by auto
  from Suc have pr: "prefix (closedSockets s @ (case ws s of None \<Rightarrow> [] | Some w \<Rightarrow> [w]))
      (closedSockets ?u)"
    by blast
  note f = handleMessage_changeTail [OF assms(1-3) c q, where h = h and cs = cs]
  have e: "(handleMessage h m cs ^^ Suc (Suc n)) s = handleMessage h m cs ?u"
    by simp
  from pr have "prefix (closedSockets s @ (case ws s of None \<Rightarrow> [] | Some w \<Rightarrow> [w]))
      (closedSockets ?u @ (case ws ?u of None \<Rightarrow> [] | Some w \<Rightarrow> [w]))"
    by (rule prefix_order.trans) simp
  with f show ?case
    unfolding e by simp
qed


section \<open>A session after it has been opened\<close>

lemma run_Cons: "run h s (e # es) = run h (step h s e) es"
  by (simp add: run_def)

lemma run_snoc: "run h s (es @ [e]) = step h (run h s es) e"
  by (simp add: run_def)

lemma onOpen_facts:
  "logBuffer (onOpen h r s) = []"
  "panel s \<noteq> None \<Longrightarrow> panel (onOpen h r s) \<noteq> None"
  "rendered h' r' (onOpen h r s) = rendered h' r' s"
  by (auto simp: onOpen_def handler_defs split: option.splits intro!: ext)

lemma run_messages:
  "logBuffer (run h s (map (WsMessage r) chunks)) = logBuffer s @ concat chunks
   \<and> (panel s \<noteq> None \<longrightarrow> panel (run h s (map (WsMessage r) chunks)) \<noteq> None)
   \<and> rendered h' r' (run h s (map (WsMessage r) chunks)) = rendered h' r' s"
proof (induction chunks arbitrary: s)
  case Nil
  show ?case by (simp add: run_def)
next
  case (Cons c chunks)
  from Cons [of "onMessage h r c s"] panel_onMessage [of s h r c] show ?case
    by (auto simp: run_Cons logBuffer_onMessage rendered_onMessage)
qed

lemma shown_run_messages:
  assumes "panel s \<noteq> None" and "chunks \<noteq> []"
  shows "shown (run h s (map (WsMessage r) chunks))
           = Some (join [10] (rendered h r s (logBuffer s @ concat chunks)))"
proof -
  from assms(2) obtain cs c where cs: "chunks = cs @ [c]"
    by (cases chunks rule: rev_cases) auto
  let ?t = "run h s (map (WsMessage r) cs)"
  from run_messages [where h = h and s = s and r = r and chunks = cs and h' = h and r' = r]
    assms(1)
  have b: "logBuffer ?t = logBuffer s @ concat cs" and p: "panel ?t \<noteq> None"
    and rd: "rendered h r ?t = rendered h r s"
    by simp_all
  have "run h s (map (WsMessage r) chunks) = onMessage h r c ?t"
    by (simp add: cs run_snoc)
  with shown_onMessage [OF p, where h = h and r = r and c = c] show ?thesis
    by (simp add: b rd cs)
qed


lemma example_runtime_session:
  "runtimeConfig exampleRuntimeSession
     = Some \<lparr>app = exampleApp, client = exampleClient, containers = [exampleContainer],
             selectedContainerId = js ''c1'', tail = Finite 100\<rparr>
   \<and> (\<exists>p. panel exampleRuntimeSession = Some p \<and> messageHandlers p = 1)
   \<and> ws exampleRuntimeSession
       = Some \<lparr>wsUrl = RuntimeLogUrl (js ''https://dokploy.example'') (js ''c1'') (Finite 100) None,
               wsHeaders = Some [(js ''x-api-key'', js ''key'')], wsRuntime = True\<rparr>
   \<and> closedSockets exampleRuntimeSession = []
   \<and> logBuffer exampleRuntimeSession = []"
  by (simp add: exampleRuntimeSession_def session_defs example_defs)

lemma example_runtime_timestampOn: "timestampOn exampleRuntimeSession = False"
  by (simp add: exampleRuntimeSession_def session_defs example_defs)


section \<open>The claims about a session\<close>

text \<open>
  C1, as the code has it. Every piece of the buffer between line breaks is rendered, the
  piece after the last line break included, so an incomplete line is shown as soon as it
  arrives: the rendered sequence has one line more than the buffer has line breaks, and its
  last line is the rendering of the trailing fragment. For two chunks received in order, the
  rendered lines after the first chunk, except the last one, are a prefix of the rendered
  lines after the second; the last one is rendered anew.
\<close>

theorem rendered_lines_grow:
  "panel s \<noteq> None \<Longrightarrow>
     shown (onMessage h r c1 s) = Some (join [10] (rendered h r s (logBuffer s @ c1)))
   \<and> shown (onMessage h r c2 (onMessage h r c1 s))
       = Some (join [10] (rendered h r s ((logBuffer s @ c1) @ c2)))
   \<and> length (rendered h r s (logBuffer s @ c1))
       = Suc (length (filter (\<lambda>c. c = 10) (logBuffer s @ c1)))
   \<and> last (rendered h r s (logBuffer s @ c1))
       = renderedLine h r s (rev (takeWhile (\<lambda>c. c \<noteq> 10) (rev (logBuffer s @ c1))))
   \<and> prefix (butlast (rendered h r s (logBuffer s @ c1)))
        (rendered h r s ((logBuffer s @ c1) @ c2))"
proof -
  assume p: "panel s \<noteq> None"
  have p': "panel (onMessage h r c1 s) \<noteq> None"
    using p by (rule panel_onMessage)
  have "shown (onMessage h r c2 (onMessage h r c1 s))
      = Some (join [10] (rendered h r s ((logBuffer s @ c1) @ c2)))"
    using shown_onMessage [OF p', of h r c2]
    by (simp only: rendered_onMessage logBuffer_onMessage)
  then show ?thesis
    using shown_onMessage [OF p] length_rendered last_rendered prefix_rendered by blast
qed

theorem rendered_lines_grow_witness:
  "panel exampleSession \<noteq> None
   \<and> length (rendered plainHost False exampleSession (logBuffer exampleSession @ js ''fail'')) = 1
   \<and> last (rendered plainHost False exampleSession (logBuffer exampleSession @ js ''fail''))
       = logLineHtml (js ''      '') (LOG_STYLES Debug) [] (js ''fail'')
   \<and> prefix (butlast (rendered plainHost False exampleSession (logBuffer exampleSession @ js ''fail'')))
        (rendered plainHost False exampleSession
           ((logBuffer exampleSession @ js ''fail'') @ js ''ed'' @ [10]))"
proof -
  have p: "panel exampleSession \<noteq> None"
    by (rule example_panel)
  have f: "rev (takeWhile (\<lambda>c. c \<noteq> 10) (rev (logBuffer exampleSession @ js ''fail''))) = js ''fail''"
    by (simp add: example_session js_def)
  have n: "length (filter (\<lambda>c. c = 10) (logBuffer exampleSession @ js ''fail'')) = 0"
    by (simp add: example_session js_def)
  have l: "renderedLine plainHost False exampleSession (js ''fail'')
      = logLineHtml (js ''      '') (LOG_STYLES Debug) [] (js ''fail'')"
    by (simp add: renderedLine_def example_session line_fail)
  show ?thesis
    using rendered_lines_grow [OF p, of plainHost False "js ''fail''" "js ''ed'' @ [10]"] p
    by (simp only: f n l) simp
qed

theorem trailing_fragment_counterexample:
  "length (rendered plainHost False exampleSession (js ''fail'')) = 1
   \<and> \<not> subseq (rendered plainHost False exampleSession (js ''fail''))
         (rendered plainHost False exampleSession (js ''fail'' @ js ''ed'' @ [10]))"
proof -
  have s1: "split 10 (js ''fail'') = [js ''fail'']"
    by (simp add: js_def)
  have s2: "split 10 (js ''fail'' @ js ''ed'' @ [10]) = [js ''failed'', []]"
    by (simp add: js_def)
  have a: "rendered plainHost False exampleSession (js ''fail'')
      = [logLineHtml (js ''      '') (LOG_STYLES Debug) [] (js ''fail'')]"
    by (simp add: rendered_def renderedLine_def example_session s1 line_fail)
  have b: "rendered plainHost False exampleSession (js ''fail'' @ js ''ed'' @ [10])
      = [logLineHtml (js ''      '') (LOG_STYLES Error) [] (js ''failed''), emptyLineHtml]"
    by (simp add: rendered_def renderedLine_def example_session s2 line_failed
        updateContent_line_Nil)
  have c: "logLineHtml (js ''      '') (LOG_STYLES Debug) [] (js ''fail'')
      \<noteq> logLineHtml (js ''      '') (LOG_STYLES Error) [] (js ''failed'')"
    by (simp add: logLineHtml_def LOG_STYLES_def js_def)
  have d: "logLineHtml (js ''      '') (LOG_STYLES Debug) [] (js ''fail'') \<noteq> emptyLineHtml"
    by (simp add: logLineHtml_def LOG_STYLES_def js_def emptyLineHtml_def)
  show ?thesis using c d by (simp add: a b)
qed

text \<open>
  C5. A transport error leaves the log buffer as it is. The page then shows the lines of
  \<open>Connection error: <reason>\<close>, an empty line, and the lines of the buffer, in this
  order; a reason without a line break gives one line.
\<close>

theorem onError_keeps_buffer:
  "logBuffer (onError h r e s) = logBuffer s
   \<and> (panel s \<noteq> None \<longrightarrow>
        shown (onError h r e s)
          = Some (join [10] (rendered h r s (js ''Connection error: '' @ e)
                             @ emptyLineHtml # rendered h r s (logBuffer s))))
   \<and> (10 \<notin> set e \<longrightarrow>
        rendered h r s (js ''Connection error: '' @ e)
          = [renderedLine h r s (js ''Connection error: '' @ e)])"
proof -
  have "rendered h r s (js ''Connection error: '' @ e @ [10, 10] @ logBuffer s)
      = rendered h r s (js ''Connection error: '' @ e) @ emptyLineHtml # rendered h r s (logBuffer s)"
    using rendered_two_breaks [of h r s "js ''Connection error: '' @ e" "logBuffer s"] by simp
  moreover have "10 \<notin> set e \<longrightarrow> 10 \<notin> set (js ''Connection error: '' @ e)"
    by (simp add: js_def)
  ultimately show ?thesis
    using shown_onError [of s h r e] logBuffer_onError [of h r e s] rendered_no_break
    by (metis (no_types, lifting))
qed

theorem onError_keeps_buffer_witness:
  "panel (onMessage plainHost False (js ''building'' @ [10]) exampleSession) \<noteq> None
   \<and> 10 \<notin> set (js ''ECONNRESET'')
   \<and> logBuffer (onError plainHost False (js ''ECONNRESET'')
        (onMessage plainHost False (js ''building'' @ [10]) exampleSession)) = js ''building'' @ [10]
   \<and> shown (onError plainHost False (js ''ECONNRESET'')
        (onMessage plainHost False (js ''building'' @ [10]) exampleSession))
      = Some (join [10]
          ([logLineHtml (js ''      '') (LOG_STYLES Error) [] (js ''Connection error: ECONNRESET''),
            emptyLineHtml]
           @ rendered plainHost False exampleSession (js ''building'' @ [10])))"
proof -
  let ?s = "onMessage plainHost False (js ''building'' @ [10]) exampleSession"
  have p: "panel ?s \<noteq> None"
    using example_panel by (rule panel_onMessage)
  have n: "10 \<notin> set (js ''ECONNRESET'')"
    by (simp add: js_def)
  have b: "logBuffer ?s = js ''building'' @ [10]"
    by (simp add: logBuffer_onMessage example_session)
  have l: "renderedLine plainHost False ?s (js ''Connection error: '' @ js ''ECONNRESET'')
      = logLineHtml (js ''      '') (LOG_STYLES Error) [] (js ''Connection error: ECONNRESET'')"
    using line_connection_error
    by (simp add: renderedLine_def onMessage_def handler_defs example_session js_def
        split: option.splits)
  show ?thesis
    using onError_keeps_buffer [of plainHost False "js ''ECONNRESET''" ?s] p n
    by (simp add: b l rendered_onMessage)
qed

text \<open>
  C6. When the transport closes and the log buffer is not empty, the page shows the lines of
  the buffer, an empty line, and last the line of the marker \<open>--- Log stream ended ---\<close>;
  when the buffer is empty the handler changes nothing. The buffer itself is never changed.
\<close>

theorem onClose_marker:
  "(logBuffer s \<noteq> [] \<and> panel s \<noteq> None \<longrightarrow>
       shown (onClose h r s)
         = Some (join [10] (rendered h r s (logBuffer s)
                            @ [emptyLineHtml, renderedLine h r s (js ''--- Log stream ended ---'')]))
     \<and> last (rendered h r s (logBuffer s)
              @ [emptyLineHtml, renderedLine h r s (js ''--- Log stream ended ---'')])
         = renderedLine h r s (js ''--- Log stream ended ---''))
   \<and> (logBuffer s = [] \<longrightarrow> onClose h r s = s)
   \<and> logBuffer (onClose h r s) = logBuffer s"
proof -
  have m: "rendered h r s (js ''--- Log stream ended ---'')
      = [renderedLine h r s (js ''--- Log stream ended ---'')]"
    by (rule rendered_no_break) (simp add: js_def)
  have "rendered h r s (logBuffer s @ [10, 10] @ js ''--- Log stream ended ---'')
      = rendered h r s (logBuffer s)
        @ [emptyLineHtml, renderedLine h r s (js ''--- Log stream ended ---'')]"
    by (simp only: rendered_two_breaks m)
  then have "logBuffer s \<noteq> [] \<and> panel s \<noteq> None \<longrightarrow>
       shown (onClose h r s)
         = Some (join [10] (rendered h r s (logBuffer s)
                            @ [emptyLineHtml, renderedLine h r s (js ''--- Log stream ended ---'')]))"
    using shown_onClose [of s h r] by simp
  moreover have "logBuffer s = [] \<longrightarrow> onClose h r s = s"
    by (simp add: onClose_def)
  ultimately show ?thesis
    by (simp add: logBuffer_onClose)
qed

theorem onClose_marker_witness:
  "logBuffer (onMessage plainHost False (js ''building'' @ [10]) exampleSession) \<noteq> []
   \<and> panel (onMessage plainHost False (js ''building'' @ [10]) exampleSession) \<noteq> None
   \<and> shown (onClose plainHost False (onMessage plainHost False (js ''building'' @ [10]) exampleSession))
       = Some (join [10] (rendered plainHost False exampleSession (js ''building'' @ [10])
            @ [emptyLineHtml,
               logLineHtml (js ''      '') (LOG_STYLES Debug) [] (js ''--- Log stream ended ---'')]))
   \<and> logBuffer exampleSession = []
   \<and> onClose plainHost False exampleSession = exampleSession"
proof -
  let ?s = "onMessage plainHost False (js ''building'' @ [10]) exampleSession"
  have p: "panel ?s \<noteq> None"
    using example_panel by (rule panel_onMessage)
  have b: "logBuffer ?s = js ''building'' @ [10]"
    by (simp add: logBuffer_onMessage example_session)
  have b': "logBuffer ?s \<noteq> []"
    by (simp add: b)
  have l: "renderedLine plainHost False ?s (js ''--- Log stream ended ---'')
      = logLineHtml (js ''      '') (LOG_STYLES Debug) [] (js ''--- Log stream ended ---'')"
    using line_marker
    by (simp add: renderedLine_def onMessage_def handler_defs example_session
        split: option.splits)
  have e: "logBuffer exampleSession = []"
    by (simp add: example_session)
  show ?thesis
    using onClose_marker [of ?s plainHost False] onClose_marker [of exampleSession plainHost False]
      p b' e
    by (simp add: b l rendered_onMessage)
qed

text \<open>
  C9. Two chunks handled one after the other leave the view in the same state, with the same
  page, as the single chunk that is their concatenation. A chunk is the text of a frame.
\<close>

theorem onMessage_concat:
  "onMessage h r c2 (onMessage h r c1 s) = onMessage h r (c1 @ c2) s"
  by (cases "panel s")
     (simp_all add: onMessage_def updateContent_def updateRuntimeContent_def Let_def
        split: option.splits)

theorem onMessage_concat_witness:
  "onMessage plainHost False (js ''ed'' @ [10]) (onMessage plainHost False (js ''fail'') exampleSession)
   = onMessage plainHost False (js ''fail'' @ (js ''ed'' @ [10])) exampleSession
   \<and> shown (onMessage plainHost False (js ''fail'' @ (js ''ed'' @ [10])) exampleSession)
       = Some (join [10]
           [logLineHtml (js ''      '') (LOG_STYLES Error) [] (js ''failed''), emptyLineHtml])"
proof -
  have s2: "split 10 (js ''fail'' @ js ''ed'' @ [10]) = [js ''failed'', []]"
    by (simp add: js_def)
  have "shown (onMessage plainHost False (js ''fail'' @ (js ''ed'' @ [10])) exampleSession)
       = Some (join [10]
           [logLineHtml (js ''      '') (LOG_STYLES Error) [] (js ''failed''), emptyLineHtml])"
    by (simp add: shown_onMessage example_panel example_session rendered_def renderedLine_def s2
        line_failed updateContent_line_Nil)
  then show ?thesis
    using onMessage_concat [of plainHost False "js ''ed'' @ [10]" "js ''fail''" exampleSession]
    by simp
qed


text \<open>
  C10. The view that the extension constructs has its timestamp flag off, and nothing that
  happens to the view turns it on. With the flag off, a rendered line has the empty text in
  the place of the timestamp element, whether or not the line has a timestamp.
\<close>

theorem timestamp_display_off:
  "timestampOn (run h (activate_logsWebview uri) es) = False
   \<and> renderedLine h r (run h (activate_logsWebview uri) es) line =
       (if trim line = [] then emptyLineHtml
        else logLineHtml
               (if r \<and> runtimeConfig (run h (activate_logsWebview uri) es) \<noteq> None
                then js ''    '' else js ''      '')
               (getLogType h (message (parseLogLine h line))) []
               (ansiToHtml h (escapeHtml (message (parseLogLine h line)))))"
proof -
  have off: "timestampOn (run h (activate_logsWebview uri) es) = False"
    by (simp add: timestampOn_run activate_logsWebview_def LogsWebview_def)
  from renderedLine_off [OF off] off show ?thesis by blast
qed

theorem timestamp_display_off_witness:
  "timestamp (parseLogLine plainHost (js ''2024-01-05T10:00:00Z Listening on port 3000''))
     = Some 1704448800000
   \<and> timestampOn exampleSession = False
   \<and> renderedLine plainHost False exampleSession
        (js ''2024-01-05T10:00:00Z Listening on port 3000'')
       = logLineHtml (js ''      '') (LOG_STYLES Success) [] (js ''Listening on port 3000'')"
proof -
  have l: "renderedLine plainHost False exampleSession
        (js ''2024-01-05T10:00:00Z Listening on port 3000'')
       = logLineHtml (js ''      '') (LOG_STYLES Success) [] (js ''Listening on port 3000'')"
    by (simp add: renderedLine_def example_session line_listening)
  show ?thesis
    using timestamp_display_off [of plainHost "js ''ext''"
        "[ShowWithWebSocket (js ''Deployment: d1'')
            (js ''wss://dokploy.example/listen-deployment'') None, WsOpen False]"
        False "js ''2024-01-05T10:00:00Z Listening on port 3000''"]
      timestamp_listening l
    by (simp add: exampleSession_def)
qed


text \<open>
  C7, as the code has it. A message from the webview that replaces the session (a change of
  container that names one, a change of tail with a number that counts as true, a refresh
  that finds containers), handled by a view with a configuration and a panel with a message
  handler, leaves the log buffer empty and the page showing only the line
  \<open>Connecting to log stream...\<close>, and the state it leaves does not depend on what the buffer
  held before: no line that was in the buffer appears afterwards. When the open event and
  then frames of sockets for runtime logs are handled, the buffer is the concatenation of
  these frames and the page shows their lines and no others. The handlers do not tell the
  socket that was replaced from the new one, so this holds for the frames of either.
\<close>

theorem reconfiguration_starts_empty:
  "runtimeConfig s \<noteq> None \<Longrightarrow> panel s = Some p \<Longrightarrow> 0 < messageHandlers p \<Longrightarrow>
   replacesSession m cs \<Longrightarrow>
     logBuffer (didReceiveMessage h m cs s) = []
   \<and> shown (didReceiveMessage h m cs s)
       = Some (join [10] (rendered h True (didReceiveMessage h m cs s)
                  (js ''Connecting to log stream...'')))
   \<and> didReceiveMessage h m cs (s\<lparr>logBuffer := b\<rparr>) = didReceiveMessage h m cs s
   \<and> logBuffer (run h (didReceiveMessage h m cs s) (WsOpen True # map (WsMessage True) chunks))
       = concat chunks
   \<and> (chunks \<noteq> [] \<longrightarrow>
        shown (run h (didReceiveMessage h m cs s) (WsOpen True # map (WsMessage True) chunks))
          = Some (join [10] (rendered h True (didReceiveMessage h m cs s) (concat chunks))))"
proof -
  assume a: "runtimeConfig s \<noteq> None" "panel s = Some p" "0 < messageHandlers p"
    "replacesSession m cs"
  let ?s = "didReceiveMessage h m cs s"
  let ?o = "onOpen h True ?s"
  note d = didReceiveMessage_replaces [OF a, where h = h]
  have po: "panel ?o \<noteq> None"
    using d(3) by (rule onOpen_facts(2))
  have bo: "logBuffer ?o = []"
    by (rule onOpen_facts(1))
  have ro: "rendered h True ?o = rendered h True ?s"
    by (rule onOpen_facts(3))
  have r: "run h ?s (WsOpen True # map (WsMessage True) chunks)
      = run h ?o (map (WsMessage True) chunks)"
    by (simp add: run_Cons)
  have "logBuffer (run h ?o (map (WsMessage True) chunks)) = concat chunks"
    using run_messages [where h = h and s = ?o and r = True and chunks = chunks] bo by simp
  moreover have "chunks \<noteq> [] \<longrightarrow>
      shown (run h ?o (map (WsMessage True) chunks))
        = Some (join [10] (rendered h True ?s (concat chunks)))"
    using shown_run_messages [OF po, where h = h and r = True and chunks = chunks] bo ro
    by simp
  ultimately show ?thesis
    using d(1,4,5) by (simp add: r)
qed

theorem reconfiguration_starts_empty_witness:
  "runtimeConfig (onMessage plainHost True (js ''old line'' @ [10]) exampleRuntimeSession) \<noteq> None
   \<and> replacesSession \<lparr>command = ChangeTail, msgContainerId = None, msgTail = Some (Finite 500)\<rparr> []
   \<and> logBuffer (onMessage plainHost True (js ''old line'' @ [10]) exampleRuntimeSession)
       = js ''old line'' @ [10]
   \<and> logBuffer (didReceiveMessage plainHost
         \<lparr>command = ChangeTail, msgContainerId = None, msgTail = Some (Finite 500)\<rparr> []
         (onMessage plainHost True (js ''old line'' @ [10]) exampleRuntimeSession)) = []
   \<and> logBuffer (run plainHost (didReceiveMessage plainHost
         \<lparr>command = ChangeTail, msgContainerId = None, msgTail = Some (Finite 500)\<rparr> []
         (onMessage plainHost True (js ''old line'' @ [10]) exampleRuntimeSession))
         (WsOpen True # map (WsMessage True) [js ''new'', js '' line'' @ [10]]))
       = js ''new line'' @ [10]"
proof -
  let ?m = "\<lparr>command = ChangeTail, msgContainerId = None, msgTail = Some (Finite 500)\<rparr>"
  let ?s = "onMessage plainHost True (js ''old line'' @ [10]) exampleRuntimeSession"
  from example_runtime_session obtain p0
    where p0: "panel exampleRuntimeSession = Some p0" "messageHandlers p0 = 1"
    by blast
  from example_runtime_session have c0: "runtimeConfig exampleRuntimeSession \<noteq> None"
    by simp
  have c: "runtimeConfig ?s \<noteq> None"
    using c0 by (auto simp: onMessage_def handler_defs split: option.splits)
  obtain p where p: "panel ?s = Some p" "messageHandlers p = 1"
    using p0 c0 by (auto simp: onMessage_def handler_defs split: option.splits)
  from p(2) have n: "0 < messageHandlers p" by simp
  have r: "replacesSession ?m []"
    by (simp add: replacesSession_def truthyNumber_def)
  have b: "logBuffer ?s = js ''old line'' @ [10]"
    by (simp add: logBuffer_onMessage example_runtime_session)
  have k: "concat [js ''new'', js '' line'' @ [10]] = js ''new line'' @ [10]"
    by (simp add: js_def)
  show ?thesis
    using reconfiguration_starts_empty [OF c p(1) n r, where h = plainHost
        and chunks = "[js ''new'', js '' line'' @ [10]]"] c r b
    by (simp only: k) simp
qed

text \<open>
  The socket that was replaced is closed, and its handlers stay. The session for tail 100
  is replaced by one for tail 500; the new socket opens and delivers a line, and then the
  closed socket delivers a line that was on its way: it is in the buffer and on the page of
  the new session.
\<close>

theorem stale_frame_counterexample:
  "ws exampleRuntimeSession
     = Some \<lparr>wsUrl = RuntimeLogUrl (js ''https://dokploy.example'') (js ''c1'') (Finite 100) None,
             wsHeaders = Some [(js ''x-api-key'', js ''key'')], wsRuntime = True\<rparr>
   \<and> closedSockets (didReceiveMessage plainHost
        \<lparr>command = ChangeTail, msgContainerId = None, msgTail = Some (Finite 500)\<rparr> []
        exampleRuntimeSession)
       = [\<lparr>wsUrl = RuntimeLogUrl (js ''https://dokploy.example'') (js ''c1'') (Finite 100) None,
           wsHeaders = Some [(js ''x-api-key'', js ''key'')], wsRuntime = True\<rparr>]
   \<and> logBuffer (run plainHost (didReceiveMessage plainHost
        \<lparr>command = ChangeTail, msgContainerId = None, msgTail = Some (Finite 500)\<rparr> []
        exampleRuntimeSession)
        [WsOpen True, WsMessage True (js ''new line'' @ [10]), WsMessage True (js ''old line'' @ [10])])
       = js ''new line'' @ [10] @ js ''old line'' @ [10]
   \<and> shown (run plainHost (didReceiveMessage plainHost
        \<lparr>command = ChangeTail, msgContainerId = None, msgTail = Some (Finite 500)\<rparr> []
        exampleRuntimeSession)
        [WsOpen True, WsMessage True (js ''new line'' @ [10]), WsMessage True (js ''old line'' @ [10])])
       = Some (join [10]
           [logLineHtml (js ''    '') (LOG_STYLES Debug) [] (js ''new line''),
            logLineHtml (js ''    '') (LOG_STYLES Debug) [] (js ''old line''),
            emptyLineHtml])"
proof -
  let ?m = "\<lparr>command = ChangeTail, msgContainerId = None, msgTail = Some (Finite 500)\<rparr>"
  let ?cfg = "\<lparr>app = exampleApp, client = exampleClient, containers = [exampleContainer],
             selectedContainerId = js ''c1'', tail = Finite 100\<rparr>"
  let ?cfg' = "\<lparr>app = exampleApp, client = exampleClient, containers = [exampleContainer],
             selectedContainerId = js ''c1'', tail = Finite 500\<rparr>"
  let ?t = "exampleRuntimeSession\<lparr>runtimeConfig := Some ?cfg'\<rparr>"
  let ?s = "didReceiveMessage plainHost ?m [] exampleRuntimeSession"
  let ?o = "onOpen plainHost True ?s"
  let ?chunks = "[js ''new line'' @ [10], js ''old line'' @ [10]]"
  from example_runtime_session obtain p
    where p: "panel exampleRuntimeSession = Some p" "messageHandlers p = 1"
    by blast
  from example_runtime_session have c: "runtimeConfig exampleRuntimeSession = Some ?cfg"
    by simp
  have d: "?s = connectToRuntimeLogs plainHost ?t"
    by (simp add: didReceiveMessage_def handleMessage_def p c truthyNumber_def)
  have c': "runtimeConfig ?t = Some ?cfg'"
    by simp
  have p': "panel ?t = Some p"
    by (simp add: p)
  note e = connectToRuntimeLogs_Some [OF c' p', of plainHost]
  have w: "ws ?t = ws exampleRuntimeSession"
    and k: "closedSockets ?t = closedSockets exampleRuntimeSession"
    by simp_all
  have cl: "closedSockets ?s
      = [\<lparr>wsUrl = RuntimeLogUrl (js ''https://dokploy.example'') (js ''c1'') (Finite 100) None,
          wsHeaders = Some [(js ''x-api-key'', js ''key'')], wsRuntime = True\<rparr>]"
    unfolding d e using example_runtime_session by (simp add: w k)
  have ps: "panel ?s \<noteq> None" and cs: "runtimeConfig ?s \<noteq> None"
    and ts: "timestampOn ?s = False"
    unfolding d e by (simp_all add: example_runtime_timestampOn)
  have po: "panel ?o \<noteq> None"
    using ps by (rule onOpen_facts(2))
  have bo: "logBuffer ?o = []"
    by (rule onOpen_facts(1))
  have ro: "rendered plainHost True ?o = rendered plainHost True ?s"
    by (rule onOpen_facts(3))
  have r: "run plainHost ?s
        [WsOpen True, WsMessage True (js ''new line'' @ [10]), WsMessage True (js ''old line'' @ [10])]
      = run plainHost ?o (map (WsMessage True) ?chunks)"
    by (simp add: run_Cons)
  have b: "logBuffer (run plainHost ?o (map (WsMessage True) ?chunks))
      = js ''new line'' @ [10] @ js ''old line'' @ [10]"
    using run_messages [where h = plainHost and s = ?o and r = True and chunks = ?chunks] bo
    by simp
  have sp: "split 10 (js ''new line'' @ [10] @ js ''old line'' @ [10])
      = [js ''new line'', js ''old line'', []]"
    by (simp add: js_def)
  have rl: "renderedLine plainHost True ?s = formatLogLine plainHost False"
    using cs ts by (auto simp: renderedLine_def intro!: ext)
  have rd: "rendered plainHost True ?s (js ''new line'' @ [10] @ js ''old line'' @ [10])
      = [logLineHtml (js ''    '') (LOG_STYLES Debug) [] (js ''new line''),
         logLineHtml (js ''    '') (LOG_STYLES Debug) [] (js ''old line''),
         emptyLineHtml]"
    unfolding rendered_def rl sp
    by (simp add: line_new_line line_old_line formatLogLine_Nil)
  have sh: "shown (run plainHost ?o (map (WsMessage True) ?chunks))
      = Some (join [10] (rendered plainHost True ?s
           (js ''new line'' @ [10] @ js ''old line'' @ [10])))"
    using shown_run_messages [OF po, where h = plainHost and r = True and chunks = ?chunks]
      bo ro
    by simp
  show ?thesis
    using example_runtime_session cl b sh by (simp only: r rd)
qed

text \<open>
  C8, as the code has it. A change of tail whose depth is missing, NaN or zero is ignored:
  the view, its configuration and its socket stay as they are. No other check is made on
  the depth: when the view has a configuration and a panel with a message handler, a change
  of tail to any other number, a negative or a fractional one included, makes this number
  the tail of the configuration, closes the socket of the view and opens a socket for the
  new tail.
\<close>

theorem changeTail_guard:
  "command m = ChangeTail \<Longrightarrow>
     ((msgTail m = None \<or> msgTail m = Some NaN \<or> msgTail m = Some (Finite 0)) \<longrightarrow>
        didReceiveMessage h m cs s = s)
   \<and> (\<forall>t cfg p. msgTail m = Some t \<and> t \<noteq> NaN \<and> t \<noteq> Finite 0
         \<and> runtimeConfig s = Some cfg \<and> panel s = Some p \<and> 0 < messageHandlers p \<longrightarrow>
           runtimeConfig (didReceiveMessage h m cs s) = Some (cfg\<lparr>tail := t\<rparr>)
         \<and> ws (didReceiveMessage h m cs s)
             = Some \<lparr>wsUrl = url (getRuntimeLogWsConfig (client cfg) (selectedContainerId cfg) t
                                    (serverId (app cfg))),
                     wsHeaders = Some (headers (getRuntimeLogWsConfig (client cfg)
                                    (selectedContainerId cfg) t (serverId (app cfg)))),
                     wsRuntime = True\<rparr>
         \<and> (\<forall>w. ws s = Some w \<longrightarrow> w \<in> set (closedSockets (didReceiveMessage h m cs s))))"
proof -
  assume c: "command m = ChangeTail"
  have a: "didReceiveMessage h m cs s = s"
    if t: "msgTail m = None \<or> msgTail m = Some NaN \<or> msgTail m = Some (Finite 0)"
  proof -
    have "handleMessage h m cs s = s"
      using c t by (auto simp: handleMessage_def truthyNumber_def split: option.splits)
    then show ?thesis
      by (simp add: didReceiveMessage_def funpow_fixed split: option.splits)
  qed
  have b: "runtimeConfig (didReceiveMessage h m cs s) = Some (cfg\<lparr>tail := t\<rparr>)
         \<and> ws (didReceiveMessage h m cs s)
             = Some \<lparr>wsUrl = url (getRuntimeLogWsConfig (client cfg) (selectedContainerId cfg) t
                                    (serverId (app cfg))),
                     wsHeaders = Some (headers (getRuntimeLogWsConfig (client cfg)
                                    (selectedContainerId cfg) t (serverId (app cfg)))),
                     wsRuntime = True\<rparr>
         \<and> (\<forall>w. ws s = Some w \<longrightarrow> w \<in> set (closedSockets (didReceiveMessage h m cs s)))"
    if t: "msgTail m = Some t" "t \<noteq> NaN" "t \<noteq> Finite 0"
      and r: "runtimeConfig s = Some cfg" and p: "panel s = Some p" "0 < messageHandlers p"
    for t cfg p
  proof -
    from p(2) obtain n where n: "messageHandlers p = Suc n"
      by (cases "messageHandlers p") auto
    from t(2,3) have tr: "truthyNumber (Some t)"
      by (simp add: truthyNumber_Some)
    have d: "didReceiveMessage h m cs s = (handleMessage h m cs ^^ Suc n) s"
      by (simp add: didReceiveMessage_def p(1) n)
    note f = funpow_changeTail [OF c t(1) tr r p(1), where h = h and cs = cs and n = n]
    from f have "prefix (closedSockets s @ (case ws s of None \<Rightarrow> [] | Some w \<Rightarrow> [w]))
        (closedSockets ((handleMessage h m cs ^^ Suc n) s))"
      by (elim conjE)
    then have "set (closedSockets s @ (case ws s of None \<Rightarrow> [] | Some w \<Rightarrow> [w]))
        \<subseteq> set (closedSockets ((handleMessage h m cs ^^ Suc n) s))"
      by (rule set_mono_prefix)
    then have "\<forall>w. ws s = Some w \<longrightarrow> w \<in> set (closedSockets ((handleMessage h m cs ^^ Suc n) s))"
      by auto
    with f show ?thesis
      unfolding d by blast
  qed
  from a b show ?thesis by blast
qed

theorem changeTail_guard_witness:
  "didReceiveMessage plainHost \<lparr>command = ChangeTail, msgContainerId = None, msgTail = Some NaN\<rparr>
        [] exampleRuntimeSession = exampleRuntimeSession
   \<and> runtimeConfig (didReceiveMessage plainHost
        \<lparr>command = ChangeTail, msgContainerId = None, msgTail = Some (Finite (- 5))\<rparr> []
        exampleRuntimeSession)
       = Some \<lparr>app = exampleApp, client = exampleClient, containers = [exampleContainer],
               selectedContainerId = js ''c1'', tail = Finite (- 5)\<rparr>
   \<and> \<lparr>wsUrl = RuntimeLogUrl (js ''https://dokploy.example'') (js ''c1'') (Finite 100) None,
       wsHeaders = Some [(js ''x-api-key'', js ''key'')], wsRuntime = True\<rparr>
       \<in> set (closedSockets (didReceiveMessage plainHost
            \<lparr>command = ChangeTail, msgContainerId = None, msgTail = Some (Finite (- 5))\<rparr> []
            exampleRuntimeSession))"
proof -
  let ?n = "\<lparr>command = ChangeTail, msgContainerId = None, msgTail = Some NaN\<rparr>"
  let ?m = "\<lparr>command = ChangeTail, msgContainerId = None, msgTail = Some (Finite (- 5))\<rparr>"
  let ?cfg = "\<lparr>app = exampleApp, client = exampleClient, containers = [exampleContainer],
             selectedContainerId = js ''c1'', tail = Finite 100\<rparr>"
  let ?w = "\<lparr>wsUrl = RuntimeLogUrl (js ''https://dokploy.example'') (js ''c1'') (Finite 100) None,
       wsHeaders = Some [(js ''x-api-key'', js ''key'')], wsRuntime = True\<rparr>"
  from example_runtime_session obtain p
    where p: "panel exampleRuntimeSession = Some p" "messageHandlers p = 1"
    by blast
  from example_runtime_session have c: "runtimeConfig exampleRuntimeSession = Some ?cfg"
    and w: "ws exampleRuntimeSession = Some ?w"
    by simp_all
  have a: "didReceiveMessage plainHost ?n [] exampleRuntimeSession = exampleRuntimeSession"
    using changeTail_guard [where m = ?n and h = plainHost and cs = "[]" and s = exampleRuntimeSession] by simp
  have cm: "command ?m = ChangeTail" by simp
  have hyp: "msgTail ?m = Some (Finite (- 5)) \<and> Finite (- 5) \<noteq> NaN \<and> Finite (- 5) \<noteq> Finite 0
      \<and> runtimeConfig exampleRuntimeSession = Some ?cfg \<and> panel exampleRuntimeSession = Some p
      \<and> 0 < messageHandlers p"
    using c p by simp
  from changeTail_guard [OF cm, where h = plainHost and cs = "[]" and s = exampleRuntimeSession] hyp
  have "runtimeConfig (didReceiveMessage plainHost ?m [] exampleRuntimeSession)
          = Some (?cfg\<lparr>tail := Finite (- 5)\<rparr>)
      \<and> (\<forall>w. ws exampleRuntimeSession = Some w \<longrightarrow>
            w \<in> set (closedSockets (didReceiveMessage plainHost ?m [] exampleRuntimeSession)))"
    by blast
  with w a show ?thesis by simp
qed

theorem changeTail_negative_counterexample:
  "map_option tail (runtimeConfig exampleRuntimeSession) = Some (Finite 100)
   \<and> closedSockets exampleRuntimeSession = []
   \<and> map_option tail (runtimeConfig (didReceiveMessage plainHost
        \<lparr>command = ChangeTail, msgContainerId = None, msgTail = Some (Finite (- 5))\<rparr> []
        exampleRuntimeSession)) = Some (Finite (- 5))
   \<and> closedSockets (didReceiveMessage plainHost
        \<lparr>command = ChangeTail, msgContainerId = None, msgTail = Some (Finite (- 5))\<rparr> []
        exampleRuntimeSession)
       = [\<lparr>wsUrl = RuntimeLogUrl (js ''https://dokploy.example'') (js ''c1'') (Finite 100) None,
           wsHeaders = Some [(js ''x-api-key'', js ''key'')], wsRuntime = True\<rparr>]
   \<and> map_option wsUrl (ws (didReceiveMessage plainHost
        \<lparr>command = ChangeTail, msgContainerId = None, msgTail = Some (Finite (- 5))\<rparr> []
        exampleRuntimeSession))
       = Some (RuntimeLogUrl (js ''https://dokploy.example'') (js ''c1'') (Finite (- 5)) None)"
proof -
  let ?m = "\<lparr>command = ChangeTail, msgContainerId = None, msgTail = Some (Finite (- 5))\<rparr>"
  let ?cfg = "\<lparr>app = exampleApp, client = exampleClient, containers = [exampleContainer],
             selectedContainerId = js ''c1'', tail = Finite 100\<rparr>"
  from example_runtime_session obtain p
    where p: "panel exampleRuntimeSession = Some p" "messageHandlers p = 1"
    by blast
  from example_runtime_session have c: "runtimeConfig exampleRuntimeSession = Some ?cfg"
    by simp
  let ?cfg' = "\<lparr>app = exampleApp, client = exampleClient, containers = [exampleContainer],
             selectedContainerId = js ''c1'', tail = Finite (- 5)\<rparr>"
  let ?t = "exampleRuntimeSession\<lparr>runtimeConfig := Some ?cfg'\<rparr>"
  have d: "didReceiveMessage plainHost ?m [] exampleRuntimeSession
      = connectToRuntimeLogs plainHost ?t"
    by (simp add: didReceiveMessage_def handleMessage_def p c truthyNumber_def)
  have c': "runtimeConfig ?t = Some ?cfg'"
    by simp
  have p': "panel ?t = Some p"
    by (simp add: p)
  note e = connectToRuntimeLogs_Some [OF c' p', of plainHost]
  have w: "ws ?t = ws exampleRuntimeSession" and k: "closedSockets ?t = closedSockets exampleRuntimeSession"
    by simp_all
  show ?thesis
    unfolding d e
    using example_runtime_session
    by (simp add: w k getRuntimeLogWsConfig_def truthyString_def exampleApp_def
        exampleClient_def exampleContainer_def)
qed


section \<open>The claims about a line\<close>

text \<open>
  C2, as the code has it. Let a line be a timestamp of the form
  \<open>YYYY-MM-DD(T| )HH:MM:SS(.fraction)?(Z| UTC)?\<close>, white space that is not empty, and a
  message without line terminator, where a timestamp without \<open>Z\<close> or \<open>UTC\<close> is not
  followed by \<open>UTC\<close> after a space; and let a field of the timestamp be out of the range
  the Date constructor accepts: the month not 1 to 12, the day not 1 to 31, the hour above
  24, the minute or the second above 59, or the hour 24 with a minute, a second or a
  fraction that is not zero. Then the timestamp of the parsed line is none and its message
  is the message of the line, trimmed: the timestamp and the white space after it are
  dropped, so the message is shorter than the line and is not the whole line.
\<close>

theorem out_of_range_timestamp_message:
  assumes "list_all isDigit [y1, y2, y3, y4, mo1, mo2, d1, d2, h1, h2, mi1, mi2, s1, s2]"
    and "sep = 84 \<or> sep = 32"
    and "list_all isDigit ds"
    and "zone = [] \<or> zone = js ''Z'' \<or> zone = js '' UTC''"
    and "gap \<noteq> []" and "list_all isSpace gap"
    and "list_all notLineTerminator m"
    and "zone = [] \<longrightarrow> \<not> prefix (js '' UTC'') (gap @ m)"
    and "line = ([y1, y2, y3, y4, 45, mo1, mo2, 45, d1, d2, sep, h1, h2, 58, mi1, mi2, 58, s1, s2]
                 @ (if ds = [] then [] else 46 # ds) @ zone) @ gap @ m"
    and "\<not> validDateTime
              \<lparr>year = 100 * (10 * digitValue y1 + digitValue y2)
                       + (10 * digitValue y3 + digitValue y4),
               month = 10 * digitValue mo1 + digitValue mo2,
               day = 10 * digitValue d1 + digitValue d2,
               hours = 10 * digitValue h1 + digitValue h2,
               minutes = 10 * digitValue mi1 + digitValue mi2,
               seconds = 10 * digitValue s1 + digitValue s2,
               fractionNumber = readUnsignedNumeral ds, fractionLength = length ds,
               utc = (zone \<noteq> [])\<rparr>"
  shows "parseLogLine h line = \<lparr>timestamp = None, message = trim m\<rparr>
       \<and> length (message (parseLogLine h line)) < length line
       \<and> message (parseLogLine h line) \<noteq> line"
proof -
  have p: "parseLogLine h line = \<lparr>timestamp = None, message = trim m\<rparr>"
    unfolding assms(9) parseLogLine_timestamped [OF assms(1-8)]
    using assms(10) by (simp add: timeValue_invalid)
  from assms(5,9) have "length m < length line" by simp
  with length_trim [of m] have "length (trim m) < length line" by simp
  with p show ?thesis by auto
qed

theorem out_of_range_timestamp_message_witness:
  "parseLogLine plainHost (js ''2024-13-45 10:00:00 hello'')
     = \<lparr>timestamp = None, message = js ''hello''\<rparr>
   \<and> parseLogLine plainHost (js ''2024-01-05T24:00:00.0004Z hello'')
     = \<lparr>timestamp = None, message = js ''hello''\<rparr>"
proof -
  have d1: "list_all isDigit [50, 48, 50, 52, 49, 51, 52, 53, 49, 48, 48, 48, 48, 48]"
    by (simp add: isDigit_def)
  have d2: "list_all isDigit [50, 48, 50, 52, 48, 49, 48, 53, 50, 52, 48, 48, 48, 48]"
    by (simp add: isDigit_def)
  have f1: "list_all isDigit []"
    by simp
  have f2: "list_all isDigit [48, 48, 48, 52]"
    by (simp add: isDigit_def)
  have g: "js '' '' \<noteq> []" "list_all isSpace (js '' '')"
    by (simp_all add: char_defs)
  have m: "list_all notLineTerminator (js ''hello'')"
    by (simp add: char_defs)
  have z1: "[] = [] \<longrightarrow> \<not> prefix (js '' UTC'') (js '' '' @ js ''hello'')"
    by (simp add: js_def)
  have z2: "js ''Z'' = [] \<longrightarrow> \<not> prefix (js '' UTC'') (js '' '' @ js ''hello'')"
    by (simp add: js_def)
  have l1: "js ''2024-13-45 10:00:00 hello''
      = ([50, 48, 50, 52, 45, 49, 51, 45, 52, 53, 32, 49, 48, 58, 48, 48, 58, 48, 48]
          @ (if [] = [] then [] else 46 # []) @ []) @ js '' '' @ js ''hello''"
    by (simp add: js_def)
  have l2: "js ''2024-01-05T24:00:00.0004Z hello''
      = ([50, 48, 50, 52, 45, 48, 49, 45, 48, 53, 84, 50, 52, 58, 48, 48, 58, 48, 48]
          @ (if [48, 48, 48, 52] = [] then [] else 46 # [48, 48, 48, 52]) @ js ''Z'')
        @ js '' '' @ js ''hello''"
    by (simp add: js_def)
  have v1: "\<not> validDateTime
        \<lparr>year = 100 * (10 * digitValue 50 + digitValue 48) + (10 * digitValue 50 + digitValue 52),
         month = 10 * digitValue 49 + digitValue 51, day = 10 * digitValue 52 + digitValue 53,
         hours = 10 * digitValue 49 + digitValue 48, minutes = 10 * digitValue 48 + digitValue 48,
         seconds = 10 * digitValue 48 + digitValue 48,
         fractionNumber = readUnsignedNumeral [], fractionLength = length [],
         utc = ([] \<noteq> [])\<rparr>"
    by (simp add: validDateTime_def readChecks_def digitValue_def)
  have v2: "\<not> validDateTime
        \<lparr>year = 100 * (10 * digitValue 50 + digitValue 48) + (10 * digitValue 50 + digitValue 52),
         month = 10 * digitValue 48 + digitValue 49, day = 10 * digitValue 48 + digitValue 53,
         hours = 10 * digitValue 50 + digitValue 52, minutes = 10 * digitValue 48 + digitValue 48,
         seconds = 10 * digitValue 48 + digitValue 48,
         fractionNumber = readUnsignedNumeral [48, 48, 48, 52],
         fractionLength = length [48, 48, 48, 52],
         utc = (js ''Z'' \<noteq> [])\<rparr>"
    by (simp add: validDateTime_def readChecks_def digitValue_def readUnsignedNumeral_def
        kMaxSignificantDigits_def)
  have a: "parseLogLine plainHost (js ''2024-13-45 10:00:00 hello'')
      = \<lparr>timestamp = None, message = js ''hello''\<rparr>"
    using out_of_range_timestamp_message [OF d1 _ f1 _ g m z1 l1 v1, of plainHost]
    by (simp add: trim_hello)
  have b: "parseLogLine plainHost (js ''2024-01-05T24:00:00.0004Z hello'')
      = \<lparr>timestamp = None, message = js ''hello''\<rparr>"
    using out_of_range_timestamp_message [OF d2 _ f2 _ g m z2 l2 v2, of plainHost]
    by (simp add: trim_hello)
  from a b show ?thesis by simp
qed

theorem invalid_timestamp_counterexample:
  "timestampRegex_match (js ''2024-13-45 10:00:00 hello'')
     = Some (js ''2024-13-45 10:00:00'', js ''hello'')
   \<and> newDate plainHost (isoTimestamp (js ''2024-13-45 10:00:00'')) = None
   \<and> parseLogLine plainHost (js ''2024-13-45 10:00:00 hello'')
       \<noteq> \<lparr>timestamp = None, message = js ''2024-13-45 10:00:00 hello''\<rparr>"
proof -
  have "parseLogLine plainHost (js ''2024-13-45 10:00:00 hello'')
      = \<lparr>timestamp = None, message = js ''hello''\<rparr>"
    using parseLogLine_match [OF match_invalid_date, of plainHost]
    by (simp add: newDate_invalid_date trim_hello)
  moreover have "js ''hello'' \<noteq> js ''2024-13-45 10:00:00 hello''"
    by (simp add: js_def)
  ultimately show ?thesis
    using match_invalid_date newDate_invalid_date by simp
qed

text \<open>
  C3, as the code has it. Let a line be a timestamp of the form
  \<open>YYYY-MM-DD(T| )HH:MM:SS(.fraction)?(Z| UTC)?\<close>, white space that is not empty, and a
  message without line terminator, where a timestamp without \<open>Z\<close> or \<open>UTC\<close> is not
  followed by \<open>UTC\<close> after a space. Then the message of the parsed line is the message
  trimmed, and its timestamp is the time value the Date constructor gives to the fields of
  the timestamp: none when a field is out of range, and otherwise the instant of the fields,
  with the milliseconds the constructor reads from the fraction, taken in UTC when the
  timestamp ends in \<open>Z\<close> or in \<open>UTC\<close>, which give the same instant, and in local time
  otherwise.
\<close>

theorem timestamped_line_parsed:
  assumes "list_all isDigit [y1, y2, y3, y4, mo1, mo2, d1, d2, h1, h2, mi1, mi2, s1, s2]"
    and "sep = 84 \<or> sep = 32"
    and "list_all isDigit ds"
    and "zone = [] \<or> zone = js ''Z'' \<or> zone = js '' UTC''"
    and "gap \<noteq> []" and "list_all isSpace gap"
    and "list_all notLineTerminator m"
    and "zone = [] \<longrightarrow> \<not> prefix (js '' UTC'') (gap @ m)"
  shows "parseLogLine h
           (([y1, y2, y3, y4, 45, mo1, mo2, 45, d1, d2, sep, h1, h2, 58, mi1, mi2, 58, s1, s2]
             @ (if ds = [] then [] else 46 # ds) @ zone) @ gap @ m)
       = \<lparr>timestamp =
            timeValue h
              \<lparr>year = 100 * (10 * digitValue y1 + digitValue y2)
                       + (10 * digitValue y3 + digitValue y4),
               month = 10 * digitValue mo1 + digitValue mo2,
               day = 10 * digitValue d1 + digitValue d2,
               hours = 10 * digitValue h1 + digitValue h2,
               minutes = 10 * digitValue mi1 + digitValue mi2,
               seconds = 10 * digitValue s1 + digitValue s2,
               fractionNumber = readUnsignedNumeral ds, fractionLength = length ds,
               utc = (zone \<noteq> [])\<rparr>,
          message = trim m\<rparr>"
  by (rule parseLogLine_timestamped [OF assms])

theorem timestamped_line_parsed_witness:
  "parseLogLine plainHost (js ''2024-01-05 10:00:00.5 UTC   Listening on port 3000  '')
     = \<lparr>timestamp = Some 1704448800500, message = js ''Listening on port 3000''\<rparr>"
proof -
  have d: "list_all isDigit [50, 48, 50, 52, 48, 49, 48, 53, 49, 48, 48, 48, 48, 48]"
    by (simp add: isDigit_def)
  have f: "list_all isDigit [53]"
    by (simp add: isDigit_def)
  have g: "js ''   '' \<noteq> []" "list_all isSpace (js ''   '')"
    by (simp_all add: char_defs)
  have m: "list_all notLineTerminator (js ''Listening on port 3000  '')"
    by (simp add: char_defs)
  have l: "([50, 48, 50, 52, 45, 48, 49, 45, 48, 53, 32, 49, 48, 58, 48, 48, 58, 48, 48]
             @ (if [53] = [] then [] else 46 # [53]) @ js '' UTC'') @ js ''   ''
             @ js ''Listening on port 3000  ''
      = js ''2024-01-05 10:00:00.5 UTC   Listening on port 3000  ''"
    by (simp add: js_def)
  have t: "timeValue plainHost
        \<lparr>year = 100 * (10 * digitValue 50 + digitValue 48) + (10 * digitValue 50 + digitValue 52),
         month = 10 * digitValue 48 + digitValue 49, day = 10 * digitValue 48 + digitValue 53,
         hours = 10 * digitValue 49 + digitValue 48, minutes = 10 * digitValue 48 + digitValue 48,
         seconds = 10 * digitValue 48 + digitValue 48,
         fractionNumber = readUnsignedNumeral [53], fractionLength = length [53],
         utc = (js '' UTC'' \<noteq> [])\<rparr> = Some 1704448800500"
    by (simp add: timeValue_def validDateTime_def readChecks_def writeChecks_def
        milliseconds_def readMilliseconds_def readUnsignedNumeral_def kMaxSignificantDigits_def
        daysFromCivil_def msPerDay_def timeClip_def digitValue_def js_def plainHost_def)
  show ?thesis
    using timestamped_line_parsed [where ?y1.0 = 50 and ?y2.0 = 48 and ?y3.0 = 50 and ?y4.0 = 52
        and ?mo1.0 = 48 and ?mo2.0 = 49 and ?d1.0 = 48 and ?d2.0 = 53 and sep = 32
        and ?h1.0 = 49 and ?h2.0 = 48 and ?mi1.0 = 48 and ?mi2.0 = 48 and ?s1.0 = 48 and ?s2.0 = 48
        and ds = "[53]" and zone = "js '' UTC''" and gap = "js ''   ''"
        and m = "js ''Listening on port 3000  ''" and h = plainHost, OF d _ f _ g m]
    by (simp only: l t trim_listening) (simp add: js_def)
qed

theorem carriage_return_counterexample:
  "parseLogLine plainHost (js ''2024-01-05T10:00:00Z hello'' @ [13])
     = \<lparr>timestamp = None, message = js ''2024-01-05T10:00:00Z hello'' @ [13]\<rparr>
   \<and> js ''2024-01-05T10:00:00Z hello'' @ [13] = js ''2024-01-05T10:00:00Z'' @ js '' '' @ js ''hello'' @ [13]
   \<and> isSpace 32
   \<and> trim (js ''hello'' @ [13]) = js ''hello''
   \<and> trim (js ''hello'' @ [13]) \<noteq> js ''2024-01-05T10:00:00Z hello'' @ [13]
   \<and> newDate plainHost (isoTimestamp (js ''2024-01-05T10:00:00Z'')) = Some 1704448800000"
proof -
  have "parseLogLine plainHost (js ''2024-01-05T10:00:00Z hello'' @ [13])
     = \<lparr>timestamp = None, message = js ''2024-01-05T10:00:00Z hello'' @ [13]\<rparr>"
    by (simp add: parseLogLine_def match_carriage_return)
  moreover have "js ''2024-01-05T10:00:00Z hello'' @ [13]
      = js ''2024-01-05T10:00:00Z'' @ js '' '' @ js ''hello'' @ [13]"
    by (simp add: js_def)
  moreover have "isSpace 32"
    by (simp add: isSpace_def)
  moreover have "js ''hello'' \<noteq> js ''2024-01-05T10:00:00Z hello'' @ [13]"
    by (simp add: js_def)
  ultimately show ?thesis
    using trim_carriage_return newDate_listening by simp
qed

text \<open>
  C4. The classifier tries the rule groups in the order error, warning, success, info, and
  the first group with a matching pattern gives the type; debug is left when none matches.
  So a message that has an error marker and a success marker is of type error.
\<close>

theorem getLogType_precedence:
  "getLogType h msg =
     (if groupMatches h errorGroup msg then LOG_STYLES Error
      else if groupMatches h warningGroup msg then LOG_STYLES Warning
      else if groupMatches h successGroup msg then LOG_STYLES Success
      else if groupMatches h infoGroup msg then LOG_STYLES Info
      else LOG_STYLES Debug)
   \<and> (groupMatches h errorGroup msg \<and> groupMatches h successGroup msg \<longrightarrow>
        type (getLogType h msg) = Error)"
proof -
  have "getLogType h msg =
     (if groupMatches h errorGroup msg then LOG_STYLES Error
      else if groupMatches h warningGroup msg then LOG_STYLES Warning
      else if groupMatches h successGroup msg then LOG_STYLES Success
      else if groupMatches h infoGroup msg then LOG_STYLES Info
      else LOG_STYLES Debug)"
    by (simp add: getLogType_def groupMatches_def errorGroup_def warningGroup_def
        successGroup_def infoGroup_def Let_def)
  then show ?thesis by (simp add: LOG_STYLES_def)
qed

theorem getLogType_precedence_witness:
  "groupMatches plainHost errorGroup
     (js ''Build failed: deployment was not completed successfully'')
   \<and> groupMatches plainHost successGroup
       (js ''Build failed: deployment was not completed successfully'')
   \<and> type (getLogType plainHost
        (js ''Build failed: deployment was not completed successfully'')) = Error"
proof -
  have e: "groupMatches plainHost errorGroup
      (js ''Build failed: deployment was not completed successfully'')"
    by (rule test_member [OF _ example_error]) (simp add: errorGroup_def)
  have s: "groupMatches plainHost successGroup
      (js ''Build failed: deployment was not completed successfully'')"
    by (rule test_member [OF _ example_success]) (simp add: successGroup_def)
  show ?thesis
    using getLogType_precedence [of plainHost
        "js ''Build failed: deployment was not completed successfully''"]
      e s
    by (simp add: LOG_STYLES_def)
qed

end
